theory Spec2Isabelle
  imports Complex_Main
begin

section \<open>The bubble shooter component: data\<close>

text \<open>
  The model follows \<^verbatim>\<open>src/components/BubbleShooter.tsx\<close>. A JavaScript number is a
  \<^typ>\<open>real\<close> (rounding, infinities and NaN are not modelled), a value that may be
  \<^verbatim>\<open>null\<close> or \<^verbatim>\<open>undefined\<close> is an \<^typ>\<open>'a option\<close>, every React ref is a field of the
  state record. Audio, drawing, visual effects, the status message, the star list and the HUD
  copy of the runtime state are presentation and are left out.
\<close>

datatype bubble_type = Normal | Bomb | Rainbow | Freeze | Aim | Obstacle

record cell =
  cell_x :: real
  cell_y :: real
  cell_color :: string
  cell_type :: bubble_type

type_synonym grid = "cell option list list"

record candidate =
  c_color :: string
  c_type :: bubble_type

text \<open>The field \<^verbatim>\<open>id\<close> of an active bubble (\<^verbatim>\<open>Date.now()\<close>) is never read and is left out.\<close>

record active_bubble =
  b_color :: string
  b_type :: bubble_type
  b_x :: real
  b_y :: real
  b_dx :: real
  b_dy :: real
  b_speed :: real
  b_launchedAt :: real

record level_config =
  levelNumber :: real
  difficulty :: string
  descentInterval :: real
  timeLimitSeconds :: "real option"
  movingRows :: "nat list option"
  movingAmplitude :: "real option"
  movingSpeed :: "real option"
  endless :: bool

record runtime_state =
  level :: level_config
  score :: real
  combo :: real
  lives :: real
  cleared :: bool
  timeLeft :: "real option"
  lastDropAt :: real

record match_result =
  removed :: "cell list"
  floating :: "cell list"
  comboBonus :: real
  triggeredSpecials :: "cell list"

text \<open>
  The imports from \<^verbatim>\<open>@/lib/gameUtils\<close> and \<^verbatim>\<open>@/constants/levels\<close> are not part of the
  source at hand, so they are parameters of the model: the constants of \<^verbatim>\<open>GAME_METRICS\<close>,
  the grid dimensions, the number of levels and the grid functions. A function that draws
  random numbers takes the state of the random source and returns the next one. A function
  whose result the component discards (\<^verbatim>\<open>dropNewRow\<close>) or that may change the grid it is
  handed (\<^verbatim>\<open>computeMatchResult\<close>) gives the contents of that grid after the call.
\<close>

record 'r game_utils =
  width :: real
  bubbleRadius :: real
  shooterY :: real
  topMargin :: real
  GRID_COLS :: nat
  MAX_ROWS :: nat
  LEVELS_length :: nat
  levelByIndex :: "int \<Rightarrow> level_config"
  generateInitialGrid :: "level_config \<Rightarrow> 'r \<Rightarrow> grid \<times> 'r"
  generateShooterBubble :: "level_config \<Rightarrow> 'r \<Rightarrow> candidate \<times> 'r"
  dropNewRow :: "grid \<Rightarrow> level_config \<Rightarrow> 'r \<Rightarrow> grid \<times> 'r"
  placeBubbleOnGrid :: "grid \<Rightarrow> active_bubble \<Rightarrow> grid \<times> nat \<times> nat"
  computeMatchResult :: "grid \<Rightarrow> nat \<Rightarrow> nat \<Rightarrow> match_result \<times> grid"
  gridCleared :: "grid \<Rightarrow> bool"
  gridReachedFailureLine :: "grid \<Rightarrow> bool"

text \<open>
  The state of the component: one field per ref or state hook that the simulation reads.
  \<open>rng\<close> is the state of \<^verbatim>\<open>Math.random\<close>. \<open>landings\<close> counts the calls of
  \<^verbatim>\<open>resolveLanding\<close>; it is the only field without a counterpart in the source and no
  function reads it.
\<close>

record 'r state =
  levelIndex :: int
  runtime :: runtime_state
  grid :: grid
  activeBubble :: "active_bubble option"
  aimAngle :: real
  aimStrength :: real
  pointerLocked :: bool
  nextQueue :: "candidate list"
  shots :: real
  isGameOver :: bool
  rowOffset :: "real list"
  lastFrame :: "real option"
  freezeUntil :: "real option"
  aimBoostUntil :: "real option"
  rng :: 'r
  landings :: nat

datatype js_error = TypeError

section \<open>Helpers\<close>

text \<open>
  Modelled from the spec: \<^verbatim>\<open>clamp\<close> is imported from \<^verbatim>\<open>@/lib/gameUtils\<close>, which is not
  part of the source at hand. The spec has it bring a value "back inside bounds": the value
  itself between the bounds, the nearer bound outside them.
\<close>

definition clamp :: "real \<Rightarrow> real \<Rightarrow> real \<Rightarrow> real" where
  "clamp v lo hi = min (max v lo) hi"

definition MAX_COMBO_MULTIPLIER :: real where
  "MAX_COMBO_MULTIPLIER = 8"

definition aimAngleMin :: real where
  "aimAngleMin = (- 4 * pi) / 5"

definition aimAngleMax :: real where
  "aimAngleMax = (- 1 * pi) / 8"

definition computeShotSpeed :: "level_config \<Rightarrow> real" where
  "computeShotSpeed lv = 520 + min (levelNumber lv * 16) 220"

text \<open>\<^verbatim>\<open>Math.atan2\<close> over the reals (the signed zeros of a double are not modelled).\<close>

definition atan2 :: "real \<Rightarrow> real \<Rightarrow> real" where
  "atan2 y x =
     (if 0 < x then arctan (y / x)
      else if x < 0 \<and> 0 \<le> y then arctan (y / x) + pi
      else if x < 0 then arctan (y / x) - pi
      else if 0 < y then pi / 2
      else if y < 0 then - pi / 2
      else 0)"

text \<open>A number is falsy when it is \<^verbatim>\<open>undefined\<close>, \<^verbatim>\<open>null\<close> or zero.\<close>

definition truthy :: "real option \<Rightarrow> bool" where
  "truthy v = (case v of None \<Rightarrow> False | Some t \<Rightarrow> t \<noteq> 0)"

text \<open>\<^verbatim>\<open>gridRef.current[row]?.[col]\<close>: a missing row or column reads as \<^verbatim>\<open>undefined\<close>.\<close>

definition cellAt :: "grid \<Rightarrow> nat \<Rightarrow> nat \<Rightarrow> cell option" where
  "cellAt g row col =
     (if row < length g \<and> col < length (g ! row) then (g ! row) ! col else None)"

text \<open>\<^verbatim>\<open>rowOffsetRef.current[row] ?? 0\<close>.\<close>

definition offsetAt :: "real list \<Rightarrow> nat \<Rightarrow> real" where
  "offsetAt offs row = (if row < length offs then offs ! row else 0)"

text \<open>
  \<^verbatim>\<open>rowOffsetRef.current[row] = offset\<close>: a write past the end extends the array; the
  holes it leaves read as 0 through \<^verbatim>\<open>?? 0\<close>, so they are stored as 0.
\<close>

definition setOffset :: "real list \<Rightarrow> nat \<Rightarrow> real \<Rightarrow> real list" where
  "setOffset offs row v =
     (if row < length offs then offs[row := v]
      else offs @ replicate (row - length offs) 0 @ [v])"

section \<open>Queue, scoring and special effects\<close>

definition activateNextBubble :: "'r game_utils \<Rightarrow> 'r state \<Rightarrow> candidate option \<times> 'r state" where
  "activateNextBubble U s =
     (let activeLevel = levelByIndex U (levelIndex s);
          current = (case nextQueue s of [] \<Rightarrow> None | c # _ \<Rightarrow> Some c);
          rest = tl (nextQueue s);
          (next, r1) = (if length rest > 0 then (rest, rng s)
                        else (let (c, r) = generateShooterBubble U activeLevel (rng s)
                              in ([c], r)));
          (c2, r2) = generateShooterBubble U activeLevel r1
      in (current, s\<lparr>nextQueue := next @ [c2], rng := r2\<rparr>))"

definition handleMatchResults :: "nat \<Rightarrow> real \<Rightarrow> 'r state \<Rightarrow> 'r state" where
  "handleMatchResults removedCount bonus s =
     (let rt = runtime s
      in if removedCount > 0
         then (let c = clamp (combo rt + 1) 1 MAX_COMBO_MULTIPLIER;
                   gained = real removedCount * 80 + bonus * c * 10
                            + (if removedCount \<ge> 6 then 150 else 0)
               in s\<lparr>runtime := rt\<lparr>combo := c, score := score rt + gained\<rparr>\<rparr>)
         else s\<lparr>runtime := rt\<lparr>combo := 1\<rparr>\<rparr>)"

definition triggerSpecialEffect :: "real \<Rightarrow> bubble_type \<Rightarrow> 'r state \<Rightarrow> 'r state" where
  "triggerSpecialEffect now t s =
     (if t = Obstacle \<or> t = Normal then s
      else (let s1 = (if t = Freeze then s\<lparr>freezeUntil := Some (now + 5000)\<rparr> else s)
            in if t = Aim then s1\<lparr>aimBoostUntil := Some (now + 7000)\<rparr> else s1))"

fun triggerAll :: "real \<Rightarrow> cell list \<Rightarrow> 'r state \<Rightarrow> 'r state" where
  "triggerAll now [] s = s"
| "triggerAll now (c # cs) s = triggerAll now cs (triggerSpecialEffect now (cell_type c) s)"

definition resolveLanding :: "'r game_utils \<Rightarrow> real \<Rightarrow> active_bubble \<Rightarrow> 'r state \<Rightarrow> 'r state" where
  "resolveLanding U now bubble s =
     (let (g1, row, col) = placeBubbleOnGrid U (grid s) bubble;
          (m, g2) = computeMatchResult U g1 row col;
          s1 = s\<lparr>grid := g2, landings := landings s + 1\<rparr>;
          s2 = handleMatchResults (length (removed m) + length (floating m)) (comboBonus m) s1;
          s3 = triggerAll now (triggeredSpecials m) s2
      in if gridCleared U (grid s3)
         then s3\<lparr>runtime := (runtime s3)\<lparr>cleared := True\<rparr>\<rparr>
         else s3)"

section \<open>Firing\<close>

definition performShoot :: "'r game_utils \<Rightarrow> real \<Rightarrow> 'r state \<Rightarrow> js_error + 'r state" where
  "performShoot U now s =
     (if cleared (runtime s) \<or> lives (runtime s) \<le> 0 then Inr s
      else if activeBubble s \<noteq> None then Inr s
      else (case activateNextBubble U s of
              (None, s1) \<Rightarrow> Inl TypeError
            | (Some shooter, s1) \<Rightarrow>
                (let speed = computeShotSpeed (level (runtime s1));
                     bubble = \<lparr>b_color = c_color shooter, b_type = c_type shooter,
                               b_x = width U / 2,
                               b_y = shooterY U - bubbleRadius U - 4,
                               b_dx = cos (aimAngle s1), b_dy = sin (aimAngle s1),
                               b_speed = speed, b_launchedAt = now\<rparr>;
                     s2 = s1\<lparr>activeBubble := Some bubble\<rparr>;
                     s3 = (if c_type shooter \<noteq> Normal
                           then triggerSpecialEffect now (c_type shooter) s2 else s2)
                 in Inr (s3\<lparr>shots := shots s3 + 1\<rparr>))))"

section \<open>Descent, lives and the time limit\<close>

definition loseLife :: "'r game_utils \<Rightarrow> 'r state \<Rightarrow> 'r state" where
  "loseLife U s =
     (let rt = (runtime s)\<lparr>lives := lives (runtime s) - 1, combo := 1\<rparr>;
          (g, r) = generateInitialGrid U (level rt) (rng s);
          s1 = s\<lparr>runtime := rt, grid := g, rng := r, activeBubble := None\<rparr>
      in if lives rt \<le> 0
         then s1\<lparr>runtime := rt\<lparr>cleared := False\<rparr>, isGameOver := True\<rparr>
         else s1)"

definition frozen :: "real \<Rightarrow> 'r state \<Rightarrow> bool" where
  "frozen timestamp s =
     (truthy (freezeUntil s) \<and> (case freezeUntil s of None \<Rightarrow> False | Some t \<Rightarrow> t > timestamp))"

definition dropInterval :: "real \<Rightarrow> 'r state \<Rightarrow> real" where
  "dropInterval timestamp s =
     (if frozen timestamp s then descentInterval (level (runtime s)) * 1.65
      else descentInterval (level (runtime s)))"

definition dropCycle :: "'r game_utils \<Rightarrow> real \<Rightarrow> 'r state \<Rightarrow> 'r state" where
  "dropCycle U timestamp s =
     (let rt = runtime s; lv = level rt; interval = dropInterval timestamp s
      in if timestamp - lastDropAt rt \<ge> interval
         then (let (g, r) = dropNewRow U (grid s) lv (rng s);
                   s1 = s\<lparr>grid := g, rng := r, runtime := rt\<lparr>lastDropAt := timestamp\<rparr>\<rparr>
               in if gridReachedFailureLine U (grid s1) then loseLife U s1 else s1)
         else s)"

text \<open>
  In \<^verbatim>\<open>applyTimeLimit\<close> the object \<^verbatim>\<open>runtime\<close> is the one \<^verbatim>\<open>loseLife\<close> changes in place,
  and it is copied into the ref once more afterwards: the lost life and the combo reset stay,
  the \<^verbatim>\<open>cleared: false\<close> of the game-over copy does not.
\<close>

definition applyTimeLimit :: "'r game_utils \<Rightarrow> real \<Rightarrow> real \<Rightarrow> 'r state \<Rightarrow> 'r state" where
  "applyTimeLimit U now delta s =
     (if timeLimitSeconds (level (runtime s)) = None then s
      else (let rt = runtime s;
                remaining = (case timeLeft rt of None \<Rightarrow> 0 | Some t \<Rightarrow> t) - delta / 1000
            in if remaining \<le> 0
               then (let s1 = loseLife U (s\<lparr>runtime := rt\<lparr>timeLeft := Some 0\<rparr>\<rparr>)
                     in s1\<lparr>runtime := (runtime s1)\<lparr>cleared := cleared rt, lastDropAt := now\<rparr>\<rparr>)
               else s\<lparr>runtime := rt\<lparr>timeLeft := Some remaining\<rparr>\<rparr>))"

fun movingRowsLoop :: "real \<Rightarrow> real \<Rightarrow> real \<Rightarrow> nat list \<Rightarrow> real list \<Rightarrow> real list" where
  "movingRowsLoop timestamp amplitude speed [] offs = offs"
| "movingRowsLoop timestamp amplitude speed (row # rows) offs =
     movingRowsLoop timestamp amplitude speed rows
       (setOffset offs row
          (sin (timestamp / (900 / speed) + real row) * amplitude
             * (if row mod 2 = 0 then 1 else - 1)))"

definition updateMovingRows :: "real \<Rightarrow> 'r state \<Rightarrow> 'r state" where
  "updateMovingRows timestamp s =
     (let lv = level (runtime s)
      in case movingRows lv of
           None \<Rightarrow> s
         | Some rows \<Rightarrow>
             if rows = [] then s
             else (let amplitude = (case movingAmplitude lv of None \<Rightarrow> 20 | Some a \<Rightarrow> a);
                       speed = (case movingSpeed lv of None \<Rightarrow> 1 | Some v \<Rightarrow> v)
                   in s\<lparr>rowOffset := movingRowsLoop timestamp amplitude speed rows (rowOffset s)\<rparr>))"

section \<open>The projectile\<close>

text \<open>
  The first half of \<^verbatim>\<open>updateActiveBubble\<close>: the position is integrated and a projectile
  at or beyond a side wall is reflected and put back between the walls.
\<close>

definition leftBound :: "'r game_utils \<Rightarrow> real" where
  "leftBound U = bubbleRadius U + 24"

definition rightBound :: "'r game_utils \<Rightarrow> real" where
  "rightBound U = width U - (bubbleRadius U + 24)"

definition integrate :: "real \<Rightarrow> active_bubble \<Rightarrow> active_bubble" where
  "integrate deltaMs b =
     (let deltaSeconds = deltaMs / 1000
      in b\<lparr>b_x := b_x b + b_dx b * b_speed b * deltaSeconds,
            b_y := b_y b + b_dy b * b_speed b * deltaSeconds\<rparr>)"

definition wallBounce :: "'r game_utils \<Rightarrow> active_bubble \<Rightarrow> active_bubble" where
  "wallBounce U b =
     (if b_x b \<le> leftBound U \<or> b_x b \<ge> rightBound U
      then b\<lparr>b_dx := b_dx b * - 1, b_x := clamp (b_x b) (leftBound U) (rightBound U)\<rparr>
      else b)"

definition ceilingStop :: "'r game_utils \<Rightarrow> active_bubble \<Rightarrow> bool" where
  "ceilingStop U b = (b_y b \<le> topMargin U + bubbleRadius U / 2)"

text \<open>The distance test of the inner loop, for the cell \<open>c\<close> found in row \<open>row\<close>.\<close>

definition inContact :: "'r game_utils \<Rightarrow> real list \<Rightarrow> active_bubble \<Rightarrow> nat \<Rightarrow> cell \<Rightarrow> bool" where
  "inContact U offs b row c =
     (let offset = offsetAt offs row;
          cx = cell_x c + offset;
          dx = b_x b - cx;
          dy = b_y b - cell_y c;
          dist = sqrt (dx * dx + dy * dy)
      in dist \<le> bubbleRadius U * 2 - 2)"

text \<open>
  The two nested loops over the grid. Each returns whether the body reached
  \<^verbatim>\<open>resolveLanding(bubble); activeBubbleRef.current = null; return\<close>.
\<close>

function colLoop :: "'r game_utils \<Rightarrow> grid \<Rightarrow> real list \<Rightarrow> active_bubble \<Rightarrow> nat \<Rightarrow> nat \<Rightarrow> bool" where
  "colLoop U g offs b row col =
     (if col < GRID_COLS U
      then (case cellAt g row col of
              None \<Rightarrow> colLoop U g offs b row (col + 1)
            | Some c \<Rightarrow>
                if cell_type c = Obstacle then colLoop U g offs b row (col + 1)
                else if inContact U offs b row c then True
                else colLoop U g offs b row (col + 1))
      else False)"
  by pat_completeness auto
termination
  by (relation "measure (\<lambda>(U, g, offs, b, row, col). GRID_COLS U - col)") auto

function rowLoop :: "'r game_utils \<Rightarrow> grid \<Rightarrow> real list \<Rightarrow> active_bubble \<Rightarrow> nat \<Rightarrow> bool" where
  "rowLoop U g offs b row =
     (if row < length g
      then (if colLoop U g offs b row 0 then True else rowLoop U g offs b (row + 1))
      else False)"
  by pat_completeness auto
termination
  by (relation "measure (\<lambda>(U, g, offs, b, row). length g - row)") auto

text \<open>The loop equations are unfolded on demand only.\<close>

declare colLoop.simps [simp del] rowLoop.simps [simp del]

definition updateActiveBubble :: "'r game_utils \<Rightarrow> real \<Rightarrow> real \<Rightarrow> 'r state \<Rightarrow> 'r state" where
  "updateActiveBubble U now deltaMs s =
     (case activeBubble s of
        None \<Rightarrow> s
      | Some b0 \<Rightarrow>
          (let bubble = wallBounce U (integrate deltaMs b0)
           in if ceilingStop U bubble
              then (resolveLanding U now bubble s)\<lparr>activeBubble := None\<rparr>
              else if rowLoop U (grid s) (rowOffset s) bubble 0
              then (resolveLanding U now bubble s)\<lparr>activeBubble := None\<rparr>
              else s\<lparr>activeBubble := Some bubble\<rparr>))"

section \<open>The frame callback\<close>

text \<open>
  One call of \<^verbatim>\<open>animationLoop\<close>. \<open>now\<close> is what \<^verbatim>\<open>performance.now()\<close> returns during the
  call. \<^verbatim>\<open>pruneEffects\<close>, \<^verbatim>\<open>drawScene\<close> and the light counter change nothing that is modelled.
\<close>

definition frameDelta :: "real \<Rightarrow> 'r state \<Rightarrow> real" where
  "frameDelta timestamp s =
     (let lf = (if truthy (lastFrame s) then lastFrame s else Some timestamp)
      in timestamp - (case lf of None \<Rightarrow> timestamp | Some t \<Rightarrow> t))"

definition animationLoop :: "'r game_utils \<Rightarrow> real \<Rightarrow> real \<Rightarrow> 'r state \<Rightarrow> 'r state" where
  "animationLoop U timestamp now s =
     (let delta = frameDelta timestamp s;
          s0 = s\<lparr>lastFrame := Some timestamp\<rparr>;
          s1 = dropCycle U timestamp s0;
          s2 = updateActiveBubble U now delta s1;
          s3 = updateMovingRows timestamp s2
      in if timeLimitSeconds (level (runtime s3)) \<noteq> None
         then applyTimeLimit U now delta s3
         else s3)"

section \<open>Level reset and input handlers\<close>

definition resetLevelState :: "'r game_utils \<Rightarrow> real \<Rightarrow> level_config \<Rightarrow> 'r state \<Rightarrow> 'r state" where
  "resetLevelState U now lv s =
     (let rt = \<lparr>level = lv,
                score = (if levelIndex s = 0 then 0 else score (runtime s)),
                combo = 1, lives = 3, cleared = False,
                timeLeft = timeLimitSeconds lv, lastDropAt = now\<rparr>;
          (g, r1) = generateInitialGrid U lv (rng s);
          (c1, r2) = generateShooterBubble U lv r1;
          (c2, r3) = generateShooterBubble U lv r2
      in s\<lparr>runtime := rt, freezeUntil := None, aimBoostUntil := None, grid := g,
            activeBubble := None, aimAngle := - pi / 2, aimStrength := 1,
            rowOffset := replicate (MAX_ROWS U) 0, nextQueue := [c1, c2], shots := 0,
            lastFrame := None, rng := r3\<rparr>)"

text \<open>
  \<open>x\<close> and \<open>y\<close> are the pointer's coordinates relative to the canvas, which is mounted
  whenever a listener runs.
\<close>

definition handlePointerMove :: "'r game_utils \<Rightarrow> real \<Rightarrow> real \<Rightarrow> 'r state \<Rightarrow> 'r state" where
  "handlePointerMove U x y s =
     (if \<not> pointerLocked s then s
      else (let dx = x - width U / 2;
                dy = y - (shooterY U - bubbleRadius U);
                angle = clamp (atan2 dy dx) aimAngleMin aimAngleMax
            in s\<lparr>aimAngle := angle,
                  aimStrength := clamp (1 - min (\<bar>dx\<bar> / (width U / 2)) 0.85) 0.45 1\<rparr>))"

definition handlePointerDown :: "'r game_utils \<Rightarrow> real \<Rightarrow> 'r state \<Rightarrow> js_error + 'r state" where
  "handlePointerDown U now s = performShoot U now (s\<lparr>pointerLocked := True\<rparr>)"

definition handlePointerUp :: "'r state \<Rightarrow> 'r state" where
  "handlePointerUp s = s\<lparr>pointerLocked := False\<rparr>"

definition arrowKeys :: "string \<Rightarrow> 'r state \<Rightarrow> 'r state" where
  "arrowKeys code s =
     (let s1 = (if code = ''ArrowLeft''
                then s\<lparr>aimAngle := clamp (aimAngle s - 0.08) aimAngleMin aimAngleMax\<rparr> else s)
      in if code = ''ArrowRight''
         then s1\<lparr>aimAngle := clamp (aimAngle s1 + 0.08) aimAngleMin aimAngleMax\<rparr> else s1)"

definition handleKeyDown :: "'r game_utils \<Rightarrow> real \<Rightarrow> string \<Rightarrow> 'r state \<Rightarrow> js_error + 'r state" where
  "handleKeyDown U now code s =
     (if code = ''Space''
      then (case performShoot U now s of Inl e \<Rightarrow> Inl e | Inr s1 \<Rightarrow> Inr (arrowKeys code s1))
      else Inr (arrowKeys code s))"

text \<open>
  The level handlers call \<^verbatim>\<open>resetLevelState\<close> of the current render, which still sees the
  old \<^verbatim>\<open>levelIndex\<close>; the new index is in place afterwards.
\<close>

definition handleAdvanceLevel :: "'r game_utils \<Rightarrow> real \<Rightarrow> 'r state \<Rightarrow> 'r state" where
  "handleAdvanceLevel U now s =
     (let nextIndex = min (levelIndex s + 1) (int (LEVELS_length U) - 1)
      in (resetLevelState U now (levelByIndex U nextIndex) s)\<lparr>levelIndex := nextIndex\<rparr>)"

definition handleRestartLevel :: "'r game_utils \<Rightarrow> real \<Rightarrow> 'r state \<Rightarrow> 'r state" where
  "handleRestartLevel U now s =
     (resetLevelState U now (levelByIndex U (levelIndex s)) s)\<lparr>isGameOver := False\<rparr>"

definition handleRestartGame :: "'r game_utils \<Rightarrow> real \<Rightarrow> 'r state \<Rightarrow> 'r state" where
  "handleRestartGame U now s =
     (resetLevelState U now (levelByIndex U 0) s)\<lparr>levelIndex := 0, isGameOver := False\<rparr>"

text \<open>The effect that runs after mounting and after every change of \<^verbatim>\<open>levelIndex\<close>.\<close>

definition levelEffect :: "'r game_utils \<Rightarrow> real \<Rightarrow> 'r state \<Rightarrow> 'r state" where
  "levelEffect U now s = resetLevelState U now (levelByIndex U (levelIndex s)) s"

text \<open>
  A render evaluates the arguments of the \<^verbatim>\<open>useRef\<close> calls again: a grid and two candidates
  are generated and dropped, which moves the random source on.
\<close>

definition render :: "'r game_utils \<Rightarrow> 'r state \<Rightarrow> 'r state" where
  "render U s =
     (let activeLevel = levelByIndex U (levelIndex s);
          (g, r1) = generateInitialGrid U activeLevel (rng s);
          (c1, r2) = generateShooterBubble U activeLevel r1;
          (c2, r3) = generateShooterBubble U activeLevel r2
      in s\<lparr>rng := r3\<rparr>)"

text \<open>The values of the hooks at the first render.\<close>

definition initialState :: "'r game_utils \<Rightarrow> real \<Rightarrow> 'r \<Rightarrow> 'r state" where
  "initialState U now r0 =
     (let activeLevel = levelByIndex U 0;
          (g, r1) = generateInitialGrid U activeLevel r0;
          (c1, r2) = generateShooterBubble U activeLevel r1;
          (c2, r3) = generateShooterBubble U activeLevel r2
      in \<lparr>levelIndex = 0,
          runtime = \<lparr>level = activeLevel, score = 0, combo = 1, lives = 3, cleared = False,
                     timeLeft = timeLimitSeconds activeLevel, lastDropAt = now\<rparr>,
          grid = g, activeBubble = None, aimAngle = - pi / 2, aimStrength = 1,
          pointerLocked = False, nextQueue = [c1, c2], shots = 0, isGameOver = False,
          rowOffset = replicate (MAX_ROWS U) 0, lastFrame = None, freezeUntil = None,
          aimBoostUntil = None, rng = r3, landings = 0\<rparr>)"

section \<open>Runs of the component\<close>

text \<open>
  Everything that calls into the component: a frame, the pointer and key listeners, the three
  level buttons, the level effect and a render. An event carries the clock reading it sees.
\<close>

datatype event =
    Frame real real
  | PointerMove real real
  | PointerDown real
  | PointerUp
  | KeyDown string real
  | AdvanceLevel real
  | RestartLevel real
  | RestartGame real
  | LevelEffect real
  | Render

fun step :: "'r game_utils \<Rightarrow> event \<Rightarrow> 'r state \<Rightarrow> js_error + 'r state" where
  "step U (Frame timestamp now) s = Inr (animationLoop U timestamp now s)"
| "step U (PointerMove x y) s = Inr (handlePointerMove U x y s)"
| "step U (PointerDown now) s = handlePointerDown U now s"
| "step U PointerUp s = Inr (handlePointerUp s)"
| "step U (KeyDown code now) s = handleKeyDown U now code s"
| "step U (AdvanceLevel now) s = Inr (handleAdvanceLevel U now s)"
| "step U (RestartLevel now) s = Inr (handleRestartLevel U now s)"
| "step U (RestartGame now) s = Inr (handleRestartGame U now s)"
| "step U (LevelEffect now) s = Inr (levelEffect U now s)"
| "step U Render s = Inr (render U s)"

text \<open>A run stops at the first exception.\<close>

fun run :: "'r game_utils \<Rightarrow> event list \<Rightarrow> 'r state \<Rightarrow> js_error + 'r state" where
  "run U [] s = Inr s"
| "run U (e # es) s = (case step U e s of Inl err \<Rightarrow> Inl err | Inr s1 \<Rightarrow> run U es s1)"

text \<open>The events that ask for a shot.\<close>

fun isFire :: "event \<Rightarrow> bool" where
  "isFire (PointerDown now) = True"
| "isFire (KeyDown code now) = (code = ''Space'')"
| "isFire e = False"

section \<open>The invariant of a run\<close>

text \<open>
  What every state of a run has in common: two queued candidates, an aim angle between its
  two constraints, a combo multiplier between 1 and the maximum, and a projectile, when there
  is one, that moves upward.
\<close>

definition wellFormed :: "'r state \<Rightarrow> bool" where
  "wellFormed s \<longleftrightarrow>
     length (nextQueue s) = 2
     \<and> aimAngleMin \<le> aimAngle s \<and> aimAngle s \<le> aimAngleMax
     \<and> 1 \<le> combo (runtime s) \<and> combo (runtime s) \<le> MAX_COMBO_MULTIPLIER
     \<and> (case activeBubble s of None \<Rightarrow> True | Some b \<Rightarrow> b_dy b < 0)"

section \<open>A concrete instance\<close>

text \<open>
  Values for the missing imports and a state, used to evaluate the model: a canvas of 512 units
  with bubbles of radius 16, grids of two columns, one level without time limit, a generator
  that always yields a red bubble, a descent that puts one blue bubble into the new top row and
  a failure line at the third row.
\<close>

definition exLevel :: level_config where
  "exLevel = \<lparr>levelNumber = 1, difficulty = ''Easy'', descentInterval = 9000,
     timeLimitSeconds = None, movingRows = None, movingAmplitude = None,
     movingSpeed = None, endless = False\<rparr>"

definition exCell :: cell where
  "exCell = \<lparr>cell_x = 44, cell_y = 56, cell_color = ''blue'', cell_type = Normal\<rparr>"

definition exUtils :: "nat game_utils" where
  "exUtils = \<lparr>width = 512, bubbleRadius = 16, shooterY = 600, topMargin = 40,
     GRID_COLS = 2, MAX_ROWS = 3, LEVELS_length = 1,
     levelByIndex = (\<lambda>i. exLevel),
     generateInitialGrid = (\<lambda>lv r. ([[None, None]], r + 1)),
     generateShooterBubble = (\<lambda>lv r. (\<lparr>c_color = ''red'', c_type = Normal\<rparr>, r + 1)),
     dropNewRow = (\<lambda>g lv r. ([Some exCell, None] # g, r + 1)),
     placeBubbleOnGrid = (\<lambda>g b. (g, 0, 0)),
     computeMatchResult = (\<lambda>g row col.
        (\<lparr>removed = [], floating = [], comboBonus = 0, triggeredSpecials = []\<rparr>, g)),
     gridCleared = (\<lambda>g. False),
     gridReachedFailureLine = (\<lambda>g. 3 \<le> length g)\<rparr>"

definition exBubble :: active_bubble where
  "exBubble = \<lparr>b_color = ''red'', b_type = Normal, b_x = 39, b_y = 300,
     b_dx = - 1, b_dy = - 1, b_speed = 500, b_launchedAt = 0\<rparr>"

definition exState :: "nat state" where
  "exState = initialState exUtils 0 0"

definition exNear :: active_bubble where
  "exNear = \<lparr>b_color = ''red'', b_type = Normal, b_x = 47, b_y = 60,
     b_dx = 0, b_dy = - 1, b_speed = 500, b_launchedAt = 0\<rparr>"

definition exObstacle :: cell where
  "exObstacle = exCell\<lparr>cell_type := Obstacle\<rparr>"


section \<open>Which fields each function leaves alone\<close>

lemma handleMatchResults_fields [simp]:
  "landings (handleMatchResults n c s) = landings s"
  "activeBubble (handleMatchResults n c s) = activeBubble s"
  "nextQueue (handleMatchResults n c s) = nextQueue s"
  "aimAngle (handleMatchResults n c s) = aimAngle s"
  "grid (handleMatchResults n c s) = grid s"
  by (simp_all add: handleMatchResults_def Let_def)

lemma triggerSpecialEffect_fields [simp]:
  "landings (triggerSpecialEffect now t s) = landings s"
  "activeBubble (triggerSpecialEffect now t s) = activeBubble s"
  "nextQueue (triggerSpecialEffect now t s) = nextQueue s"
  "aimAngle (triggerSpecialEffect now t s) = aimAngle s"
  "runtime (triggerSpecialEffect now t s) = runtime s"
  "grid (triggerSpecialEffect now t s) = grid s"
  "shots (triggerSpecialEffect now t s) = shots s"
  by (simp_all add: triggerSpecialEffect_def Let_def)

lemma triggerAll_fields [simp]:
  "landings (triggerAll now cs s) = landings s"
  "activeBubble (triggerAll now cs s) = activeBubble s"
  "nextQueue (triggerAll now cs s) = nextQueue s"
  "aimAngle (triggerAll now cs s) = aimAngle s"
  "runtime (triggerAll now cs s) = runtime s"
  "grid (triggerAll now cs s) = grid s"
  by (induction cs arbitrary: s; simp)+

lemma resolveLanding_fields [simp]:
  "landings (resolveLanding U now b s) = landings s + 1"
  "activeBubble (resolveLanding U now b s) = activeBubble s"
  "nextQueue (resolveLanding U now b s) = nextQueue s"
  "aimAngle (resolveLanding U now b s) = aimAngle s"
  by (simp_all add: resolveLanding_def Let_def split: prod.splits)

lemma loseLife_fields [simp]:
  "landings (loseLife U s) = landings s"
  "activeBubble (loseLife U s) = None"
  "nextQueue (loseLife U s) = nextQueue s"
  "aimAngle (loseLife U s) = aimAngle s"
  "combo (runtime (loseLife U s)) = 1"
  "lives (runtime (loseLife U s)) = lives (runtime s) - 1"
  "lastDropAt (runtime (loseLife U s)) = lastDropAt (runtime s)"
  "level (runtime (loseLife U s)) = level (runtime s)"
  by (simp_all add: loseLife_def Let_def split: prod.splits)

lemma dropCycle_fields [simp]:
  "landings (dropCycle U ts s) = landings s"
  "nextQueue (dropCycle U ts s) = nextQueue s"
  "aimAngle (dropCycle U ts s) = aimAngle s"
  "level (runtime (dropCycle U ts s)) = level (runtime s)"
  by (simp_all add: dropCycle_def Let_def split: prod.splits)

lemma dropCycle_active: "activeBubble (dropCycle U ts s) = None \<or> activeBubble (dropCycle U ts s) = activeBubble s"
  by (simp add: dropCycle_def Let_def split: prod.splits)

lemma applyTimeLimit_fields [simp]:
  "landings (applyTimeLimit U now d s) = landings s"
  "nextQueue (applyTimeLimit U now d s) = nextQueue s"
  "aimAngle (applyTimeLimit U now d s) = aimAngle s"
  by (simp_all add: applyTimeLimit_def Let_def)

lemma applyTimeLimit_active: "activeBubble (applyTimeLimit U now d s) = None \<or> activeBubble (applyTimeLimit U now d s) = activeBubble s"
  by (simp add: applyTimeLimit_def Let_def)

lemma updateMovingRows_fields [simp]:
  "landings (updateMovingRows ts s) = landings s"
  "activeBubble (updateMovingRows ts s) = activeBubble s"
  "nextQueue (updateMovingRows ts s) = nextQueue s"
  "aimAngle (updateMovingRows ts s) = aimAngle s"
  "runtime (updateMovingRows ts s) = runtime s"
  "grid (updateMovingRows ts s) = grid s"
  by (simp_all add: updateMovingRows_def Let_def split: option.splits)

lemma updateActiveBubble_fields [simp]:
  "nextQueue (updateActiveBubble U now d s) = nextQueue s"
  "aimAngle (updateActiveBubble U now d s) = aimAngle s"
  by (simp_all add: updateActiveBubble_def Let_def split: option.splits)

lemma updateActiveBubble_None: "activeBubble s = None \<Longrightarrow> updateActiveBubble U now d s = s"
  by (simp add: updateActiveBubble_def)

lemma updateActiveBubble_landings:
  "landings (updateActiveBubble U now d s) = landings s \<and> (activeBubble s = None \<longrightarrow> activeBubble (updateActiveBubble U now d s) = None)
   \<or> landings (updateActiveBubble U now d s) = landings s + 1 \<and> activeBubble s \<noteq> None \<and> activeBubble (updateActiveBubble U now d s) = None"
  by (simp add: updateActiveBubble_def Let_def split: option.splits)

lemma animationLoop_landings:
  "landings (animationLoop U ts now s) \<le> landings s + 1
   \<and> (landings (animationLoop U ts now s) \<noteq> landings s \<longrightarrow>
        activeBubble s \<noteq> None \<and> activeBubble (animationLoop U ts now s) = None)
   \<and> (activeBubble s = None \<longrightarrow>
        landings (animationLoop U ts now s) = landings s \<and> activeBubble (animationLoop U ts now s) = None)"
proof -
  define s0 where "s0 = s\<lparr>lastFrame := Some ts\<rparr>"
  define s1 where "s1 = dropCycle U ts s0"
  define s2 where "s2 = updateActiveBubble U now (frameDelta ts s) s1"
  define s3 where "s3 = updateMovingRows ts s2"
  define s4 where "s4 = animationLoop U ts now s"
  have s4: "s4 = s3 \<or> s4 = applyTimeLimit U now (frameDelta ts s) s3"
    by (simp add: s4_def animationLoop_def Let_def s3_def s2_def s1_def s0_def)
  have l1: "landings s1 = landings s" by (simp add: s1_def s0_def)
  have a1: "activeBubble s1 = None \<or> activeBubble s1 = activeBubble s"
    using dropCycle_active [of U ts s0] by (simp add: s1_def s0_def)
  have u: "landings s2 = landings s1 \<and> (activeBubble s1 = None \<longrightarrow> activeBubble s2 = None)
     \<or> landings s2 = landings s1 + 1 \<and> activeBubble s1 \<noteq> None \<and> activeBubble s2 = None"
    unfolding s2_def by (rule updateActiveBubble_landings)
  have l4: "landings s4 = landings s2" using s4 by (auto simp: s3_def)
  have a4: "activeBubble s4 = None \<or> activeBubble s4 = activeBubble s2"
    using s4 applyTimeLimit_active [of U now "frameDelta ts s" s3] by (auto simp: s3_def)
  show ?thesis
    unfolding s4_def [symmetric] using l1 a1 u l4 a4 by (cases "activeBubble s") auto
qed

lemma resetLevelState_fields [simp]:
  "landings (resetLevelState U now lv s) = landings s"
  "activeBubble (resetLevelState U now lv s) = None"
  "length (nextQueue (resetLevelState U now lv s)) = 2"
  "aimAngle (resetLevelState U now lv s) = - pi / 2"
  "combo (runtime (resetLevelState U now lv s)) = 1"
  by (simp_all add: resetLevelState_def Let_def split: prod.splits)

lemma handlePointerMove_fields [simp]:
  "landings (handlePointerMove U x y s) = landings s"
  "activeBubble (handlePointerMove U x y s) = activeBubble s"
  "nextQueue (handlePointerMove U x y s) = nextQueue s"
  "runtime (handlePointerMove U x y s) = runtime s"
  by (simp_all add: handlePointerMove_def Let_def)

lemma arrowKeys_fields [simp]:
  "landings (arrowKeys code s) = landings s"
  "activeBubble (arrowKeys code s) = activeBubble s"
  "nextQueue (arrowKeys code s) = nextQueue s"
  "runtime (arrowKeys code s) = runtime s"
  by (simp_all add: arrowKeys_def Let_def)

lemma render_fields [simp]:
  "landings (render U s) = landings s"
  "activeBubble (render U s) = activeBubble s"
  "nextQueue (render U s) = nextQueue s"
  "runtime (render U s) = runtime s"
  "aimAngle (render U s) = aimAngle s"
  by (simp_all add: render_def Let_def split: prod.splits)

lemma step_noFire:
  assumes "\<not> isFire e" "activeBubble s = None"
  shows "\<exists>s'. step U e s = Inr s' \<and> landings s' = landings s \<and> activeBubble s' = None"
proof (cases e)
  case (Frame ts now)
  then show ?thesis using animationLoop_landings [of U ts now s] assms by simp
next
  case (KeyDown code now)
  then show ?thesis using assms by (simp add: handleKeyDown_def)
qed (use assms in \<open>simp_all add: handlePointerUp_def handleAdvanceLevel_def
      handleRestartLevel_def handleRestartGame_def levelEffect_def Let_def\<close>)

lemma run_noFire:
  "\<forall>e \<in> set evs. \<not> isFire e \<Longrightarrow> activeBubble s = None \<Longrightarrow>
   \<exists>s'. run U evs s = Inr s' \<and> landings s' = landings s \<and> activeBubble s' = None"
proof (induction evs arbitrary: s)
  case Nil
  then show ?case by simp
next
  case (Cons e evs)
  then obtain s1 where s1: "step U e s = Inr s1" "landings s1 = landings s" "activeBubble s1 = None"
    using step_noFire [of e s U] by auto
  with Cons.IH [of s1] Cons.prems show ?case by auto
qed

section \<open>The loops over the grid\<close>

lemma ex_from_split: "(\<exists>j\<ge>n. P j) \<longleftrightarrow> P (n::nat) \<or> (\<exists>j\<ge>Suc n. P j)"
proof
  assume "\<exists>j\<ge>n. P j"
  then obtain j where j: "n \<le> j" "P j" by blast
  show "P n \<or> (\<exists>j\<ge>Suc n. P j)"
  proof (cases "j = n")
    case True
    with j show ?thesis by simp
  next
    case False
    with j have "Suc n \<le> j" by simp
    with j show ?thesis by blast
  qed
next
  assume "P n \<or> (\<exists>j\<ge>Suc n. P j)"
  then show "\<exists>j\<ge>n. P j"
    using Suc_leD by blast
qed

lemma colLoop_iff:
  "colLoop U g offs b row col \<longleftrightarrow>
     (\<exists>j\<ge>col. j < GRID_COLS U \<and> (\<exists>c. cellAt g row j = Some c
            \<and> cell_type c \<noteq> Obstacle \<and> inContact U offs b row c))"
proof (induction U g offs b row col rule: colLoop.induct)
  case (1 U g offs b row col)
  show ?case
  proof (cases "col < GRID_COLS U")
    case False
    then show ?thesis by (subst colLoop.simps) auto
  next
    case True
    show ?thesis
    proof (cases "cellAt g row col")
      case None
      with True 1 show ?thesis
        by (subst colLoop.simps, subst ex_from_split) simp
    next
      case (Some c)
      with True 1 show ?thesis
        by (subst colLoop.simps, subst ex_from_split) auto
    qed
  qed
qed

lemma rowLoop_iff_from:
  "rowLoop U g offs b row \<longleftrightarrow>
     (\<exists>i\<ge>row. i < length g \<and> (\<exists>j<GRID_COLS U. \<exists>c. cellAt g i j = Some c
            \<and> cell_type c \<noteq> Obstacle \<and> inContact U offs b i c))"
proof (induction U g offs b row rule: rowLoop.induct)
  case (1 U g offs b row)
  show ?case
  proof (cases "row < length g")
    case False
    then show ?thesis by (subst rowLoop.simps) auto
  next
    case True
    have step: "rowLoop U g offs b row = (colLoop U g offs b row 0 \<or> rowLoop U g offs b (row + 1))"
      using True by (subst rowLoop.simps) simp
    have here: "colLoop U g offs b row 0 \<longleftrightarrow>
        (\<exists>j<GRID_COLS U. \<exists>c. cellAt g row j = Some c
            \<and> cell_type c \<noteq> Obstacle \<and> inContact U offs b row c)"
      by (simp add: colLoop_iff)
    show ?thesis
    proof (cases "colLoop U g offs b row 0")
      case hit: True
      with here True step show ?thesis by blast
    next
      case False
      with True 1 have rest: "rowLoop U g offs b (row + 1) \<longleftrightarrow>
          (\<exists>i\<ge>Suc row. i < length g \<and> (\<exists>j<GRID_COLS U. \<exists>c. cellAt g i j = Some c
            \<and> cell_type c \<noteq> Obstacle \<and> inContact U offs b i c))"
        by simp
      show ?thesis
        unfolding step rest here
        using True ex_from_split [of row "\<lambda>i. i < length g \<and> (\<exists>j<GRID_COLS U. \<exists>c. cellAt g i j = Some c
            \<and> cell_type c \<noteq> Obstacle \<and> inContact U offs b i c)"]
        by simp
    qed
  qed
qed

lemma rowLoop_iff:
  "rowLoop U g offs b 0 \<longleftrightarrow>
     (\<exists>i j c. i < length g \<and> j < GRID_COLS U \<and> cellAt g i j = Some c
            \<and> cell_type c \<noteq> Obstacle \<and> inContact U offs b i c)"
  by (auto simp: rowLoop_iff_from)

section \<open>The invariant is kept\<close>

lemma clamp_bounds: "lo \<le> hi \<Longrightarrow> lo \<le> clamp v lo hi \<and> clamp v lo hi \<le> hi"
  by (simp add: clamp_def)

lemma sin_aim_negative:
  assumes "aimAngleMin \<le> a" "a \<le> aimAngleMax"
  shows "sin a < 0"
proof -
  have "- pi < a" using assms(1) pi_gt_zero unfolding aimAngleMin_def by linarith
  moreover have "a < 0" using assms(2) pi_gt_zero unfolding aimAngleMax_def by linarith
  ultimately have "0 < sin (- a)" by (intro sin_gt_zero) simp_all
  then show ?thesis by simp
qed

lemma aim_range: "aimAngleMin \<le> aimAngleMax"
  using pi_gt_zero by (simp add: aimAngleMin_def aimAngleMax_def)

lemma aim_initial: "aimAngleMin \<le> - pi / 2 \<and> - pi / 2 \<le> aimAngleMax"
  using pi_gt_zero by (simp add: aimAngleMin_def aimAngleMax_def)

lemma activateNextBubble_two:
  assumes "length (nextQueue s) = 2"
  shows "\<exists>s1. activateNextBubble U s = (Some (hd (nextQueue s)), s1)
            \<and> nextQueue s1 = [nextQueue s ! 1,
                 fst (generateShooterBubble U (levelByIndex U (levelIndex s)) (rng s))]
            \<and> aimAngle s1 = aimAngle s \<and> runtime s1 = runtime s
            \<and> activeBubble s1 = activeBubble s \<and> landings s1 = landings s
            \<and> shots s1 = shots s"
proof -
  from assms obtain a b where q: "nextQueue s = [a, b]"
    by (cases "nextQueue s"; simp; rename_tac x xs; case_tac xs; simp)
  show ?thesis
    by (simp add: activateNextBubble_def q Let_def split: prod.splits)
qed

lemma activateNextBubble_nonempty:
  assumes "nextQueue s \<noteq> []"
  shows "\<exists>s1. activateNextBubble U s = (Some (hd (nextQueue s)), s1)
            \<and> aimAngle s1 = aimAngle s \<and> runtime s1 = runtime s
            \<and> activeBubble s1 = activeBubble s \<and> landings s1 = landings s
            \<and> shots s1 = shots s \<and> nextQueue s1 \<noteq> []"
  using assms
  by (cases "nextQueue s") (simp_all add: activateNextBubble_def Let_def split: prod.splits)

lemma performShoot_two:
  assumes "length (nextQueue s) = 2"
  shows "\<exists>s'. performShoot U now s = Inr s' \<and> length (nextQueue s') = 2
            \<and> aimAngle s' = aimAngle s \<and> combo (runtime s') = combo (runtime s)
            \<and> (activeBubble s' = activeBubble s
                \<or> activeBubble s = None \<and> (\<exists>b. activeBubble s' = Some b \<and> b_dy b = sin (aimAngle s)))"
proof -
  from activateNextBubble_two [OF assms, of U] obtain s1 where
    s1: "activateNextBubble U s = (Some (hd (nextQueue s)), s1)"
        "length (nextQueue s1) = 2" "aimAngle s1 = aimAngle s" "runtime s1 = runtime s"
        "activeBubble s1 = activeBubble s"
    by auto
  show ?thesis
    using assms s1 by (auto simp: performShoot_def Let_def)
qed

lemma wellFormed_update [simp]:
  "wellFormed (t\<lparr>levelIndex := i\<rparr>) = wellFormed t"
  "wellFormed (t\<lparr>isGameOver := g\<rparr>) = wellFormed t"
  "wellFormed (t\<lparr>pointerLocked := p\<rparr>) = wellFormed t"
  "wellFormed (t\<lparr>lastFrame := f\<rparr>) = wellFormed t"
  by (simp_all add: wellFormed_def)

lemma handleMatchResults_combo:
  "1 \<le> combo (runtime (handleMatchResults n c s))
   \<and> combo (runtime (handleMatchResults n c s)) \<le> MAX_COMBO_MULTIPLIER"
  by (simp add: handleMatchResults_def Let_def clamp_def MAX_COMBO_MULTIPLIER_def)

lemma resolveLanding_combo:
  "1 \<le> combo (runtime (resolveLanding U now b s))
   \<and> combo (runtime (resolveLanding U now b s)) \<le> MAX_COMBO_MULTIPLIER"
  by (simp add: resolveLanding_def Let_def handleMatchResults_combo split: prod.splits)

lemma updateActiveBubble_wellFormed:
  assumes "wellFormed s"
  shows "wellFormed (updateActiveBubble U now d s)"
proof (cases "activeBubble s")
  case None
  with assms show ?thesis by (simp add: updateActiveBubble_None)
next
  case (Some b0)
  have dy: "b_dy (wallBounce U (integrate d b0)) = b_dy b0"
    by (simp add: wallBounce_def integrate_def Let_def)
  from assms Some have "b_dy b0 < 0" by (simp add: wellFormed_def)
  with assms Some dy resolveLanding_combo [of U now "wallBounce U (integrate d b0)" s]
  show ?thesis
    by (simp add: wellFormed_def updateActiveBubble_def Let_def)
qed

lemma loseLife_wellFormed: "wellFormed s \<Longrightarrow> wellFormed (loseLife U s)"
  by (simp add: wellFormed_def MAX_COMBO_MULTIPLIER_def)

lemma dropCycle_wellFormed: "wellFormed s \<Longrightarrow> wellFormed (dropCycle U ts s)"
proof -
  assume wf: "wellFormed s"
  have "\<And>g r. wellFormed (s\<lparr>grid := g, rng := r, runtime := (runtime s)\<lparr>lastDropAt := ts\<rparr>\<rparr>)"
    using wf by (simp add: wellFormed_def)
  then show ?thesis
    using wf by (simp add: dropCycle_def Let_def loseLife_wellFormed split: prod.splits)
qed

lemma applyTimeLimit_wellFormed: "wellFormed s \<Longrightarrow> wellFormed (applyTimeLimit U now d s)"
proof -
  assume wf: "wellFormed s"
  define s1 where "s1 = loseLife U (s\<lparr>runtime := (runtime s)\<lparr>timeLeft := Some 0\<rparr>\<rparr>)"
  have "wellFormed (s\<lparr>runtime := (runtime s)\<lparr>timeLeft := Some 0\<rparr>\<rparr>)"
    using wf by (simp add: wellFormed_def)
  then have "wellFormed s1"
    unfolding s1_def by (rule loseLife_wellFormed)
  then have b: "wellFormed (s1\<lparr>runtime := (runtime s1)\<lparr>cleared := cleared (runtime s), lastDropAt := now\<rparr>\<rparr>)"
    by (simp add: wellFormed_def)
  have c: "\<And>x. wellFormed (s\<lparr>runtime := (runtime s)\<lparr>timeLeft := x\<rparr>\<rparr>)"
    using wf by (simp add: wellFormed_def)
  show ?thesis
    using wf b c by (simp add: applyTimeLimit_def Let_def s1_def)
qed

lemma updateMovingRows_wellFormed: "wellFormed s \<Longrightarrow> wellFormed (updateMovingRows ts s)"
  by (simp add: wellFormed_def)

lemma animationLoop_wellFormed: "wellFormed s \<Longrightarrow> wellFormed (animationLoop U ts now s)"
proof -
  assume wf: "wellFormed s"
  then show ?thesis
    by (simp add: animationLoop_def Let_def dropCycle_wellFormed updateActiveBubble_wellFormed
        updateMovingRows_wellFormed applyTimeLimit_wellFormed)
qed

lemma resetLevelState_wellFormed: "wellFormed (resetLevelState U now lv s)"
  using aim_initial by (simp add: wellFormed_def MAX_COMBO_MULTIPLIER_def)

lemma performShoot_wellFormed:
  assumes "wellFormed s"
  shows "\<exists>s'. performShoot U now s = Inr s' \<and> wellFormed s'"
proof -
  from assms have q: "length (nextQueue s) = 2" by (simp add: wellFormed_def)
  from assms have "sin (aimAngle s) < 0" by (simp add: wellFormed_def sin_aim_negative)
  with performShoot_two [OF q, of U now] assms show ?thesis
    by (auto simp: wellFormed_def)
qed

lemma handlePointerMove_wellFormed: "wellFormed s \<Longrightarrow> wellFormed (handlePointerMove U x y s)"
  using clamp_bounds [OF aim_range]
  by (simp add: wellFormed_def handlePointerMove_def Let_def)

lemma arrowKeys_wellFormed: "wellFormed s \<Longrightarrow> wellFormed (arrowKeys code s)"
  using clamp_bounds [OF aim_range]
  by (simp add: wellFormed_def arrowKeys_def Let_def)

lemma step_wellFormed:
  assumes "wellFormed s"
  shows "\<exists>s'. step U e s = Inr s' \<and> wellFormed s'"
proof (cases e)
  case (Frame ts now)
  with assms show ?thesis by (simp add: animationLoop_wellFormed)
next
  case (PointerMove x y)
  with assms show ?thesis by (simp add: handlePointerMove_wellFormed)
next
  case (PointerDown now)
  with assms show ?thesis by (simp add: handlePointerDown_def performShoot_wellFormed)
next
  case PointerUp
  with assms show ?thesis by (simp add: handlePointerUp_def)
next
  case (KeyDown code now)
  from performShoot_wellFormed [OF assms, of U now] obtain s1
    where "performShoot U now s = Inr s1" "wellFormed s1" by blast
  with KeyDown assms show ?thesis
    by (simp add: handleKeyDown_def arrowKeys_wellFormed)
next
  case (AdvanceLevel now)
  then show ?thesis
    by (simp add: handleAdvanceLevel_def Let_def resetLevelState_wellFormed)
next
  case (RestartLevel now)
  then show ?thesis
    by (simp add: handleRestartLevel_def resetLevelState_wellFormed)
next
  case (RestartGame now)
  then show ?thesis
    by (simp add: handleRestartGame_def resetLevelState_wellFormed)
next
  case (LevelEffect now)
  then show ?thesis by (simp add: levelEffect_def resetLevelState_wellFormed)
next
  case Render
  with assms show ?thesis by (simp add: wellFormed_def)
qed

lemma run_wellFormed:
  "wellFormed s \<Longrightarrow> \<exists>s'. run U evs s = Inr s' \<and> wellFormed s'"
proof (induction evs arbitrary: s)
  case Nil
  then show ?case by simp
next
  case (Cons e evs)
  from step_wellFormed [OF Cons.prems, of U e] obtain s1
    where s1: "step U e s = Inr s1" "wellFormed s1" by blast
  with Cons.IH [of s1] show ?case by simp
qed

lemma initialState_wellFormed: "wellFormed (initialState U now r0)"
  using aim_initial
  by (simp add: wellFormed_def initialState_def Let_def MAX_COMBO_MULTIPLIER_def split: prod.splits)

section \<open>Further facts about the descent and the time limit\<close>

lemma loseLife_grid:
  "grid (loseLife U s) = fst (generateInitialGrid U (level (runtime s)) (rng s))"
  by (simp add: loseLife_def Let_def split: prod.splits)

lemma applyTimeLimit_lives:
  "lives (runtime (applyTimeLimit U now d s)) \<le> lives (runtime s)"
  by (simp add: applyTimeLimit_def Let_def)

lemma descent_drop:
  fixes U :: "'r game_utils"
  assumes "lv = level (runtime s)"
    and "dropped = dropNewRow U (grid s) lv (rng s)"
    and "s' = dropCycle U timestamp s"
  shows "(timestamp - lastDropAt (runtime s) \<ge> dropInterval timestamp s \<longrightarrow>
            (\<not> gridReachedFailureLine U (fst dropped) \<longrightarrow>
                  s' = s\<lparr>grid := fst dropped, rng := snd dropped,
                          runtime := (runtime s)\<lparr>lastDropAt := timestamp\<rparr>\<rparr>)
            \<and> (gridReachedFailureLine U (fst dropped) \<longrightarrow>
                  lives (runtime s') = lives (runtime s) - 1
                  \<and> activeBubble s' = None))"
  by (simp add: assms dropCycle_def Let_def split: prod.splits)

section \<open>The concrete instance evaluated\<close>

lemma exState_fields:
  "levelIndex exState = 0"
  "runtime exState = \<lparr>level = exLevel, score = 0, combo = 1, lives = 3, cleared = False,
                      timeLeft = None, lastDropAt = 0\<rparr>"
  "grid exState = [[None, None]]"
  "activeBubble exState = None"
  "aimAngle exState = - pi / 2"
  "nextQueue exState = [\<lparr>c_color = ''red'', c_type = Normal\<rparr>, \<lparr>c_color = ''red'', c_type = Normal\<rparr>]"
  "shots exState = 0"
  "rowOffset exState = [0, 0, 0]"
  "lastFrame exState = None"
  "freezeUntil exState = None"
  "rng exState = 3"
  "landings exState = 0"
  by (simp_all add: exState_def initialState_def exUtils_def exLevel_def Let_def numeral_3_eq_3)

lemma exUtils_fields:
  "width exUtils = 512" "bubbleRadius exUtils = 16" "shooterY exUtils = 600"
  "topMargin exUtils = 40" "GRID_COLS exUtils = 2" "MAX_ROWS exUtils = 3"
  "levelByIndex exUtils i = exLevel"
  "generateInitialGrid exUtils lv r = ([[None, None]], r + 1)"
  "generateShooterBubble exUtils lv r = (\<lparr>c_color = ''red'', c_type = Normal\<rparr>, r + 1)"
  "dropNewRow exUtils g lv r = ([Some exCell, None] # g, r + 1)"
  "placeBubbleOnGrid exUtils g b = (g, 0, 0)"
  "computeMatchResult exUtils g row col =
     (\<lparr>removed = [], floating = [], comboBonus = 0, triggeredSpecials = []\<rparr>, g)"
  "gridCleared exUtils g = False"
  "gridReachedFailureLine exUtils g = (3 \<le> length g)"
  by (simp_all add: exUtils_def)

lemma exNear_moved:
  "wallBounce exUtils (integrate 0 exNear) = exNear"
  by (simp add: wallBounce_def integrate_def exNear_def leftBound_def rightBound_def exUtils_fields)

lemma exNear_not_ceiling: "\<not> ceilingStop exUtils exNear"
  by (simp add: ceilingStop_def exNear_def exUtils_fields)

lemma exNear_inContact: "inContact exUtils [0, 0, 0] exNear 0 exCell"
  by (simp add: inContact_def offsetAt_def exNear_def exCell_def exUtils_fields Let_def)

lemma exNear_scan_hit: "rowLoop exUtils [[Some exCell, None], [None, None]] [0, 0, 0] exNear 0"
  using exNear_inContact
  by (simp add: rowLoop.simps colLoop.simps cellAt_def exUtils_fields exCell_def)

lemma exNear_scan_miss: "\<not> rowLoop exUtils [[None, None]] [0, 0, 0] exNear 0"
  by (simp add: rowLoop.simps colLoop.simps cellAt_def exUtils_fields)

lemma ex_dropInterval: "dropInterval t (exState\<lparr>grid := g, activeBubble := a\<rparr>) = 9000"
  "dropInterval t (exState\<lparr>activeBubble := a\<rparr>) = 9000"
  "dropInterval t exState = 9000"
  by (simp_all add: dropInterval_def frozen_def truthy_def exState_fields exLevel_def)

lemma ex_frameDelta: "frameDelta t (exState\<lparr>grid := g, activeBubble := a\<rparr>) = 0"
  "frameDelta t (exState\<lparr>activeBubble := a\<rparr>) = 0"
  "frameDelta t exState = 0"
  by (simp_all add: frameDelta_def truthy_def exState_fields)

lemma ex_landed:
  "landings (updateActiveBubble exUtils 16 0
      (exState\<lparr>grid := [[Some exCell, None], [None, None]], activeBubble := Some exNear\<rparr>)) = 1"
  using exNear_moved exNear_not_ceiling exNear_scan_hit
  by (simp add: updateActiveBubble_def exState_fields Let_def)

section \<open>The claims\<close>




text \<open>
  C2. Within one call of the frame callback the descent, with its failure-line check and the
  loss of a life, runs before the projectile is moved and tested. When a due descent breaches
  the failure line, the life is lost and the projectile is gone before the projectile phase
  starts, which then does nothing: no landing happens in that tick. When a due descent does not
  breach, the projectile is tested against the grid as the descent left it.
\<close>

theorem descent_precedes_projectile:
  fixes U :: "'r game_utils"
  assumes "delta = frameDelta timestamp s"
    and "s1 = dropCycle U timestamp (s\<lparr>lastFrame := Some timestamp\<rparr>)"
    and "s' = animationLoop U timestamp now s"
    and "dropped = fst (dropNewRow U (grid s) (level (runtime s)) (rng s))"
    and "timestamp - lastDropAt (runtime s) \<ge> dropInterval timestamp s"
  shows "s' = (let s2 = updateActiveBubble U now delta s1;
                   s3 = updateMovingRows timestamp s2
               in if timeLimitSeconds (level (runtime s3)) \<noteq> None
                  then applyTimeLimit U now delta s3 else s3)
       \<and> (gridReachedFailureLine U dropped \<longrightarrow>
             lives (runtime s1) = lives (runtime s) - 1
             \<and> activeBubble s1 = None
             \<and> updateActiveBubble U now delta s1 = s1
             \<and> landings s' = landings s
             \<and> activeBubble s' = None
             \<and> lives (runtime s') \<le> lives (runtime s) - 1)
       \<and> (\<not> gridReachedFailureLine U dropped \<longrightarrow>
             grid s1 = dropped \<and> activeBubble s1 = activeBubble s
             \<and> rowOffset s1 = rowOffset s
             \<and> (\<forall>b0. activeBubble s = Some b0
                   \<and> \<not> ceilingStop U (wallBounce U (integrate delta b0)) \<longrightarrow>
                   (landings s' = landings s + 1
                    \<longleftrightarrow> rowLoop U dropped (rowOffset s) (wallBounce U (integrate delta b0)) 0)))"
proof -
  define s0 where "s0 = s\<lparr>lastFrame := Some timestamp\<rparr>"
  define s2 where "s2 = updateActiveBubble U now delta s1"
  define s3 where "s3 = updateMovingRows timestamp s2"
  have order: "s' = (if timeLimitSeconds (level (runtime s3)) \<noteq> None
                     then applyTimeLimit U now delta s3 else s3)"
    by (simp add: assms(1,2,3) animationLoop_def Let_def s3_def s2_def)
  have due: "timestamp - lastDropAt (runtime s0) \<ge> dropInterval timestamp s0"
  proof -
    have "dropInterval timestamp s0 = dropInterval timestamp s"
      by (simp add: s0_def dropInterval_def frozen_def)
    moreover have "runtime s0 = runtime s" by (simp add: s0_def)
    ultimately show ?thesis using assms(5) by simp
  qed
  have d: "dropNewRow U (grid s0) (level (runtime s0)) (rng s0)
            = dropNewRow U (grid s) (level (runtime s)) (rng s)"
    by (simp add: s0_def)
  note c7 = descent_drop [OF refl refl refl, of timestamp s0 U]
  have l': "landings s' = landings s2" "activeBubble s' = None \<or> activeBubble s' = activeBubble s2"
    "lives (runtime s') \<le> lives (runtime s2)"
    using order applyTimeLimit_active [of U now delta s3] applyTimeLimit_lives [of U now delta s3]
    by (auto simp: s3_def)
  have breach: "lives (runtime s1) = lives (runtime s) - 1
             \<and> activeBubble s1 = None
             \<and> updateActiveBubble U now delta s1 = s1
             \<and> landings s' = landings s
             \<and> activeBubble s' = None
             \<and> lives (runtime s') \<le> lives (runtime s) - 1"
    if b: "gridReachedFailureLine U dropped"
  proof -
    from c7 due b have 1: "lives (runtime s1) = lives (runtime s) - 1" "activeBubble s1 = None"
      by (simp_all add: assms(2,4) s0_def [symmetric] d) (simp_all add: s0_def)
    then have 2: "s2 = s1" by (simp add: s2_def updateActiveBubble_None)
    have 3: "landings s1 = landings s" by (simp add: assms(2))
    from 1 2 3 l' show ?thesis by (auto simp: s2_def)
  qed
  have nobreach: "grid s1 = dropped \<and> activeBubble s1 = activeBubble s
             \<and> rowOffset s1 = rowOffset s
             \<and> (\<forall>b0. activeBubble s = Some b0
                   \<and> \<not> ceilingStop U (wallBounce U (integrate delta b0)) \<longrightarrow>
                   (landings s' = landings s + 1
                    \<longleftrightarrow> rowLoop U dropped (rowOffset s) (wallBounce U (integrate delta b0)) 0))"
    if nb: "\<not> gridReachedFailureLine U dropped"
  proof -
    from c7 due nb have "s1 = s0\<lparr>grid := dropped,
         rng := snd (dropNewRow U (grid s) (level (runtime s)) (rng s)),
         runtime := (runtime s0)\<lparr>lastDropAt := timestamp\<rparr>\<rparr>"
      by (simp add: assms(2,4) s0_def [symmetric] d)
    then have 1: "grid s1 = dropped" "activeBubble s1 = activeBubble s" "rowOffset s1 = rowOffset s"
      "landings s1 = landings s"
      by (simp_all add: s0_def)
    have "landings s2 = landings s + 1
            \<longleftrightarrow> rowLoop U dropped (rowOffset s) (wallBounce U (integrate delta b0)) 0"
      if "activeBubble s = Some b0" "\<not> ceilingStop U (wallBounce U (integrate delta b0))" for b0
      using that 1 by (simp add: s2_def updateActiveBubble_def Let_def)
    with 1 l' show ?thesis by simp
  qed
  have "s' = (let s2 = updateActiveBubble U now delta s1;
                   s3 = updateMovingRows timestamp s2
               in if timeLimitSeconds (level (runtime s3)) \<noteq> None
                  then applyTimeLimit U now delta s3 else s3)"
    by (simp add: assms(1,2,3) animationLoop_def Let_def)
  with breach nobreach show ?thesis
    by blast
qed

theorem descent_precedes_projectile_witness:
  "9000 - lastDropAt (runtime (exState\<lparr>grid := [[None, None], [None, None]], activeBubble := Some exNear\<rparr>))
      \<ge> dropInterval 9000 (exState\<lparr>grid := [[None, None], [None, None]], activeBubble := Some exNear\<rparr>)
   \<and> gridReachedFailureLine exUtils
        (fst (dropNewRow exUtils [[None, None], [None, None]] exLevel (rng exState)))
   \<and> landings (animationLoop exUtils 9000 9000
         (exState\<lparr>grid := [[None, None], [None, None]], activeBubble := Some exNear\<rparr>)) = 0
   \<and> activeBubble (animationLoop exUtils 9000 9000
         (exState\<lparr>grid := [[None, None], [None, None]], activeBubble := Some exNear\<rparr>)) = None
   \<and> lives (runtime (animationLoop exUtils 9000 9000
         (exState\<lparr>grid := [[None, None], [None, None]], activeBubble := Some exNear\<rparr>))) \<le> 2
   \<and> 9000 - lastDropAt (runtime (exState\<lparr>activeBubble := Some exNear\<rparr>))
      \<ge> dropInterval 9000 (exState\<lparr>activeBubble := Some exNear\<rparr>)
   \<and> \<not> gridReachedFailureLine exUtils (fst (dropNewRow exUtils [[None, None]] exLevel (rng exState)))
   \<and> \<not> ceilingStop exUtils (wallBounce exUtils (integrate 0 exNear))
   \<and> \<not> rowLoop exUtils [[None, None]] [0, 0, 0] (wallBounce exUtils (integrate 0 exNear)) 0
   \<and> rowLoop exUtils [[Some exCell, None], [None, None]] [0, 0, 0]
        (wallBounce exUtils (integrate 0 exNear)) 0
   \<and> landings (animationLoop exUtils 9000 9000 (exState\<lparr>activeBubble := Some exNear\<rparr>)) = 1"
proof -
  let ?sB = "exState\<lparr>grid := [[None, None], [None, None]], activeBubble := Some exNear\<rparr>"
  let ?sN = "exState\<lparr>activeBubble := Some exNear\<rparr>"
  have dueB: "9000 - lastDropAt (runtime ?sB) \<ge> dropInterval 9000 ?sB"
    by (simp add: ex_dropInterval exState_fields)
  have dueN: "9000 - lastDropAt (runtime ?sN) \<ge> dropInterval 9000 ?sN"
    by (simp add: ex_dropInterval exState_fields)
  have g: "gridReachedFailureLine exUtils
        (fst (dropNewRow exUtils [[None, None], [None, None]] exLevel (rng exState)))"
    "\<not> gridReachedFailureLine exUtils (fst (dropNewRow exUtils [[None, None]] exLevel (rng exState)))"
    by (simp_all add: exUtils_fields)
  have i1: "landings (animationLoop exUtils 9000 9000 ?sB) = 0
      \<and> activeBubble (animationLoop exUtils 9000 9000 ?sB) = None
      \<and> lives (runtime (animationLoop exUtils 9000 9000 ?sB)) \<le> 2"
    using descent_precedes_projectile [OF refl refl refl refl dueB, of exUtils 9000, THEN conjunct2] g
    by (simp add: exState_fields)
  have i2: "landings (animationLoop exUtils 9000 9000 ?sN) = 1"
    using descent_precedes_projectile [OF refl refl refl refl dueN, of exUtils 9000, THEN conjunct2] g
      exNear_moved exNear_not_ceiling exNear_scan_hit
    by (simp add: exState_fields ex_frameDelta exUtils_fields)
  show ?thesis
    using dueB dueN g i1 i2 exNear_moved exNear_not_ceiling exNear_scan_hit exNear_scan_miss
    by simp
qed

text \<open>
  C3. A fire request changes nothing at all exactly when a projectile is already active, the
  level is cleared or no life is left; otherwise it creates the one active projectile from the
  head of the queue, aimed along the current angle, and counts one shot. The candidate queue is
  taken to be non-empty, as it is in every state of a run.
\<close>

theorem fire_rejected_exactly_when_busy_or_over:
  assumes "nextQueue s \<noteq> []"
  shows "(performShoot U now s = Inr s \<longleftrightarrow>
            activeBubble s \<noteq> None \<or> cleared (runtime s) \<or> lives (runtime s) \<le> 0)
       \<and> (activeBubble s = None \<and> \<not> cleared (runtime s) \<and> 0 < lives (runtime s) \<longrightarrow>
            (\<exists>s' b. performShoot U now s = Inr s' \<and> activeBubble s' = Some b
                \<and> b_color b = c_color (hd (nextQueue s)) \<and> b_type b = c_type (hd (nextQueue s))
                \<and> b_dx b = cos (aimAngle s) \<and> b_dy b = sin (aimAngle s)
                \<and> shots s' = shots s + 1 \<and> landings s' = landings s))"
proof -
  from activateNextBubble_nonempty [OF assms, of U] obtain s1 where
    s1: "activateNextBubble U s = (Some (hd (nextQueue s)), s1)"
        "aimAngle s1 = aimAngle s" "runtime s1 = runtime s"
        "activeBubble s1 = activeBubble s" "landings s1 = landings s" "shots s1 = shots s"
    by blast
  have rej: "activeBubble s \<noteq> None \<or> cleared (runtime s) \<or> lives (runtime s) \<le> 0
              \<Longrightarrow> performShoot U now s = Inr s"
    by (auto simp: performShoot_def)
  have acc: "\<exists>s' b. performShoot U now s = Inr s' \<and> activeBubble s' = Some b
                \<and> b_color b = c_color (hd (nextQueue s)) \<and> b_type b = c_type (hd (nextQueue s))
                \<and> b_dx b = cos (aimAngle s) \<and> b_dy b = sin (aimAngle s)
                \<and> shots s' = shots s + 1 \<and> landings s' = landings s"
    if "activeBubble s = None" "\<not> cleared (runtime s)" "0 < lives (runtime s)"
    using that s1 by (simp add: performShoot_def Let_def)
  have changed: "performShoot U now s \<noteq> Inr s"
    if "activeBubble s = None" "\<not> cleared (runtime s)" "0 < lives (runtime s)"
  proof
    assume "performShoot U now s = Inr s"
    with acc [OF that] have "\<exists>b. activeBubble s = Some b" by auto
    with that(1) show False by simp
  qed
  show ?thesis
    using rej acc changed by (metis not_le)
qed

theorem fire_rejected_exactly_when_busy_or_over_witness:
  "nextQueue (exState\<lparr>activeBubble := Some exBubble\<rparr>) \<noteq> []
   \<and> activeBubble (exState\<lparr>activeBubble := Some exBubble\<rparr>) \<noteq> None
   \<and> performShoot exUtils 5 (exState\<lparr>activeBubble := Some exBubble\<rparr>)
       = Inr (exState\<lparr>activeBubble := Some exBubble\<rparr>)
   \<and> nextQueue exState \<noteq> []
   \<and> activeBubble exState = None \<and> \<not> cleared (runtime exState) \<and> 0 < lives (runtime exState)
   \<and> performShoot exUtils 5 exState \<noteq> Inr exState
   \<and> (\<exists>s' b. performShoot exUtils 5 exState = Inr s' \<and> activeBubble s' = Some b
         \<and> b_color b = ''red'' \<and> b_dy b = - 1 \<and> shots s' = 1)"
proof -
  have q: "nextQueue exState = [\<lparr>c_color = ''red'', c_type = Normal\<rparr>, \<lparr>c_color = ''red'', c_type = Normal\<rparr>]"
    by (simp add: exState_def initialState_def exUtils_def Let_def)
  have st: "activeBubble exState = None" "\<not> cleared (runtime exState)"
    "lives (runtime exState) = 3" "shots exState = 0" "aimAngle exState = - pi / 2"
    by (simp_all add: exState_def initialState_def exUtils_def Let_def)
  have h1: "nextQueue (exState\<lparr>activeBubble := Some exBubble\<rparr>) \<noteq> []"
    using q by simp
  have h2: "nextQueue exState \<noteq> []"
    using q by simp
  show ?thesis
    using fire_rejected_exactly_when_busy_or_over [OF h1, of exUtils 5]
      fire_rejected_exactly_when_busy_or_over [OF h2, of exUtils 5] q st
    by auto
qed

text \<open>
  C4. One tick resolves at most one placement, in \<^verbatim>\<open>updateActiveBubble\<close> as in the whole
  frame callback; a tick that resolves one had an active projectile and leaves none. From a
  state without active projectile no sequence of calls that contains no fire request resolves
  a placement or brings a projectile back.
\<close>

theorem one_resolution_per_tick:
  "landings (updateActiveBubble U now delta s) \<le> landings s + 1
   \<and> (landings (updateActiveBubble U now delta s) = landings s + 1 \<longrightarrow>
         activeBubble s \<noteq> None \<and> activeBubble (updateActiveBubble U now delta s) = None)
   \<and> landings (animationLoop U timestamp now s) \<le> landings s + 1
   \<and> (landings (animationLoop U timestamp now s) = landings s + 1 \<longrightarrow>
         activeBubble s \<noteq> None \<and> activeBubble (animationLoop U timestamp now s) = None)
   \<and> (activeBubble s = None \<and> (\<forall>e \<in> set evs. \<not> isFire e) \<longrightarrow>
         (\<exists>s'. run U evs s = Inr s' \<and> landings s' = landings s \<and> activeBubble s' = None))"
proof -
  have "activeBubble s = None \<and> (\<forall>e \<in> set evs. \<not> isFire e) \<longrightarrow>
         (\<exists>s'. run U evs s = Inr s' \<and> landings s' = landings s \<and> activeBubble s' = None)"
    using run_noFire [of evs s U] by blast
  then show ?thesis
    using updateActiveBubble_landings [of U now delta s] animationLoop_landings [of U timestamp now s]
    by auto
qed

theorem one_resolution_per_tick_witness:
  "landings (updateActiveBubble exUtils 16 0
      (exState\<lparr>grid := [[Some exCell, None], [None, None]], activeBubble := Some exNear\<rparr>))
     = landings (exState\<lparr>grid := [[Some exCell, None], [None, None]], activeBubble := Some exNear\<rparr>) + 1
   \<and> activeBubble (updateActiveBubble exUtils 16 0
      (exState\<lparr>grid := [[Some exCell, None], [None, None]], activeBubble := Some exNear\<rparr>)) = None
   \<and> activeBubble exState = None
   \<and> \<not> isFire (Frame 16 16) \<and> \<not> isFire (PointerMove 3 4) \<and> \<not> isFire (Frame 32 32)
   \<and> (\<exists>s'. run exUtils [Frame 16 16, PointerMove 3 4, Frame 32 32] exState = Inr s'
          \<and> landings s' = 0 \<and> activeBubble s' = None)"
proof -
  let ?s = "exState\<lparr>grid := [[Some exCell, None], [None, None]], activeBubble := Some exNear\<rparr>"
  have a: "landings (updateActiveBubble exUtils 16 0 ?s) = landings ?s + 1"
    using ex_landed by (simp add: exState_fields)
  have b: "activeBubble exState = None \<and> (\<forall>e \<in> set [Frame 16 16, PointerMove 3 4, Frame 32 32]. \<not> isFire e)"
    by (simp add: exState_fields)
  show ?thesis
    using one_resolution_per_tick [of exUtils 16 0 ?s 16 "[]"]
      one_resolution_per_tick [of exUtils 16 0 exState 16 "[Frame 16 16, PointerMove 3 4, Frame 32 32]"]
      a b
    by (simp add: exState_fields)
qed

text \<open>
  C5. Wall bounce: when the integrated x position is at or beyond a side bound (bubble radius
  plus a margin of 24 from either edge), the horizontal direction is negated and x is clamped
  between the bounds. A projectile at x = leftBound - 1 with dx = -1 comes out with dx = +1 and
  x = leftBound, whether that position is read after or before the integration step. The
  bounced projectile is the one that stays active or is handed to the landing.
\<close>

theorem wall_bounce_reflects_and_clamps:
  assumes "leftBound U \<le> rightBound U"
    and "activeBubble s = Some b0"
    and "moved = integrate deltaMs b0"
    and "bubble = wallBounce U moved"
  shows "(b_x moved \<le> leftBound U \<or> b_x moved \<ge> rightBound U \<longrightarrow>
            b_dx bubble = - b_dx b0
            \<and> b_x bubble = clamp (b_x moved) (leftBound U) (rightBound U)
            \<and> leftBound U \<le> b_x bubble \<and> b_x bubble \<le> rightBound U)
       \<and> (b_x moved = leftBound U - 1 \<and> b_dx b0 = - 1 \<longrightarrow>
            b_dx bubble = 1 \<and> b_x bubble = leftBound U)
       \<and> (b_x b0 = leftBound U - 1 \<and> b_dx b0 = - 1 \<and> 0 \<le> deltaMs \<and> 0 \<le> b_speed b0 \<longrightarrow>
            b_dx bubble = 1 \<and> b_x bubble = leftBound U)
       \<and> (updateActiveBubble U now deltaMs s = s\<lparr>activeBubble := Some bubble\<rparr>
          \<or> updateActiveBubble U now deltaMs s = (resolveLanding U now bubble s)\<lparr>activeBubble := None\<rparr>)"
proof -
  have dx: "b_dx moved = b_dx b0"
    by (simp add: assms(3) integrate_def Let_def)
  have x: "b_x moved = b_x b0 + b_dx b0 * b_speed b0 * (deltaMs / 1000)"
    by (simp add: assms(3) integrate_def Let_def)
  have 1: "b_x moved \<le> leftBound U \<or> b_x moved \<ge> rightBound U \<longrightarrow>
            b_dx bubble = - b_dx b0
            \<and> b_x bubble = clamp (b_x moved) (leftBound U) (rightBound U)
            \<and> leftBound U \<le> b_x bubble \<and> b_x bubble \<le> rightBound U"
    using assms(1) dx clamp_bounds [OF assms(1), of "b_x moved"]
    by (simp add: assms(4) wallBounce_def)
  have 2: "b_x moved \<le> leftBound U - 1 \<and> b_dx b0 = - 1 \<longrightarrow>
            b_dx bubble = 1 \<and> b_x bubble = leftBound U"
    using assms(1) dx by (simp add: assms(4) wallBounce_def clamp_def)
  have 3: "b_x b0 = leftBound U - 1 \<and> b_dx b0 = - 1 \<and> 0 \<le> deltaMs \<and> 0 \<le> b_speed b0
            \<longrightarrow> b_x moved \<le> leftBound U - 1"
    using x by (auto simp: mult_nonneg_nonneg)
  have 4: "updateActiveBubble U now deltaMs s = s\<lparr>activeBubble := Some bubble\<rparr>
          \<or> updateActiveBubble U now deltaMs s = (resolveLanding U now bubble s)\<lparr>activeBubble := None\<rparr>"
    by (simp add: updateActiveBubble_def assms(2,3,4) Let_def)
  from 1 2 3 4 show ?thesis by auto
qed

theorem wall_bounce_reflects_and_clamps_witness:
  "leftBound exUtils \<le> rightBound exUtils
   \<and> activeBubble (exState\<lparr>activeBubble := Some exBubble\<rparr>) = Some exBubble
   \<and> b_x (integrate 0 exBubble) \<le> leftBound exUtils
   \<and> b_x (integrate 0 exBubble) = leftBound exUtils - 1
   \<and> b_x exBubble = leftBound exUtils - 1 \<and> b_dx exBubble = - 1
   \<and> (0::real) \<le> 0 \<and> 0 \<le> b_speed exBubble
   \<and> b_dx (wallBounce exUtils (integrate 0 exBubble)) = 1
   \<and> b_x (wallBounce exUtils (integrate 0 exBubble)) = leftBound exUtils
   \<and> b_x (wallBounce exUtils (integrate 0 exBubble)) \<le> rightBound exUtils"
proof -
  have h1: "leftBound exUtils \<le> rightBound exUtils"
    by (simp add: leftBound_def rightBound_def exUtils_def)
  have h2: "activeBubble (exState\<lparr>activeBubble := Some exBubble\<rparr>) = Some exBubble"
    by simp
  have h3: "b_x (integrate 0 exBubble) = leftBound exUtils - 1"
    by (simp add: integrate_def leftBound_def exUtils_def exBubble_def)
  have h4: "b_x exBubble = leftBound exUtils - 1 \<and> b_dx exBubble = - 1 \<and> 0 \<le> b_speed exBubble"
    by (simp add: leftBound_def exUtils_def exBubble_def)
  show ?thesis
    using wall_bounce_reflects_and_clamps [OF h1 h2 refl refl, of 0 0] h1 h3 h4
    by simp
qed

text \<open>
  C6 as stated fails for the same reason as C1: an occupied cell of kind \<open>obstacle\<close> at
  distance 5 from the projectile, with 30 as the contact threshold, does not resolve it. The
  tick leaves the state as it was.
\<close>

theorem obstacle_within_distance_counterexample:
  "cellAt [[Some exObstacle, None]] 0 0 = Some exObstacle
   \<and> sqrt ((b_x exNear - (cell_x exObstacle + offsetAt (rowOffset exState) 0))
             * (b_x exNear - (cell_x exObstacle + offsetAt (rowOffset exState) 0))
           + (b_y exNear - cell_y exObstacle) * (b_y exNear - cell_y exObstacle)) = 5
   \<and> 5 \<le> bubbleRadius exUtils * 2 - 2
   \<and> updateActiveBubble exUtils 0 0
        (exState\<lparr>grid := [[Some exObstacle, None]], activeBubble := Some exNear\<rparr>)
      = exState\<lparr>grid := [[Some exObstacle, None]], activeBubble := Some exNear\<rparr>"
proof -
  have scan: "\<not> rowLoop exUtils [[Some exObstacle, None]] [0, 0, 0] exNear 0"
    by (simp add: rowLoop.simps colLoop.simps cellAt_def exUtils_fields exObstacle_def)
  have d: "sqrt ((b_x exNear - (cell_x exObstacle + offsetAt (rowOffset exState) 0))
             * (b_x exNear - (cell_x exObstacle + offsetAt (rowOffset exState) 0))
           + (b_y exNear - cell_y exObstacle) * (b_y exNear - cell_y exObstacle)) = 5"
    by (simp add: exNear_def exObstacle_def exCell_def offsetAt_def exState_fields)
  show ?thesis
    using scan d exNear_moved exNear_not_ceiling
    by (simp add: updateActiveBubble_def exState_fields Let_def cellAt_def exUtils_fields)
qed

text \<open>
  C6, amended. A projectile that has not reached the ceiling resolves as a placement in this
  tick exactly when some occupied cell of a kind other than \<open>obstacle\<close> has its centre, with
  the lateral offset of its row added to x, at Euclidean distance at most two bubble radii
  minus 2 from the projectile's centre. Otherwise the projectile stays active at its new
  position.
\<close>

theorem contact_iff_within_distance:
  assumes "activeBubble s = Some b0"
    and "bubble = wallBounce U (integrate deltaMs b0)"
    and "\<not> ceilingStop U bubble"
    and "s' = updateActiveBubble U now deltaMs s"
  shows "(activeBubble s' = None \<longleftrightarrow>
           (\<exists>row col c. row < length (grid s) \<and> col < GRID_COLS U
              \<and> cellAt (grid s) row col = Some c \<and> cell_type c \<noteq> Obstacle
              \<and> sqrt ((b_x bubble - (cell_x c + offsetAt (rowOffset s) row))
                        * (b_x bubble - (cell_x c + offsetAt (rowOffset s) row))
                      + (b_y bubble - cell_y c) * (b_y bubble - cell_y c))
                  \<le> bubbleRadius U * 2 - 2))
       \<and> (landings s' = landings s + 1 \<longleftrightarrow> activeBubble s' = None)
       \<and> (activeBubble s' \<noteq> None \<longrightarrow> s' = s\<lparr>activeBubble := Some bubble\<rparr>)"
proof -
  have scan: "rowLoop U (grid s) (rowOffset s) bubble 0 \<longleftrightarrow>
           (\<exists>row col c. row < length (grid s) \<and> col < GRID_COLS U
              \<and> cellAt (grid s) row col = Some c \<and> cell_type c \<noteq> Obstacle
              \<and> sqrt ((b_x bubble - (cell_x c + offsetAt (rowOffset s) row))
                        * (b_x bubble - (cell_x c + offsetAt (rowOffset s) row))
                      + (b_y bubble - cell_y c) * (b_y bubble - cell_y c))
                  \<le> bubbleRadius U * 2 - 2)"
    unfolding rowLoop_iff by (simp add: inContact_def Let_def)
  have upd: "s' = (if rowLoop U (grid s) (rowOffset s) bubble 0
                   then (resolveLanding U now bubble s)\<lparr>activeBubble := None\<rparr>
                   else s\<lparr>activeBubble := Some bubble\<rparr>)"
    using assms by (simp add: updateActiveBubble_def Let_def)
  have a: "activeBubble s' = None \<longleftrightarrow> rowLoop U (grid s) (rowOffset s) bubble 0"
    by (simp add: upd)
  have l: "landings s' = landings s + 1 \<longleftrightarrow> rowLoop U (grid s) (rowOffset s) bubble 0"
    by (simp add: upd)
  have k: "activeBubble s' \<noteq> None \<longrightarrow> s' = s\<lparr>activeBubble := Some bubble\<rparr>"
    using a upd by simp
  show ?thesis
    unfolding scan [symmetric] using a l k by blast
qed

theorem contact_iff_within_distance_witness:
  "activeBubble (exState\<lparr>grid := [[Some exCell, None]], activeBubble := Some exNear\<rparr>) = Some exNear
   \<and> \<not> ceilingStop exUtils (wallBounce exUtils (integrate 0 exNear))
   \<and> (0::nat) < length [[Some exCell, None]] \<and> 0 < GRID_COLS exUtils
   \<and> cellAt [[Some exCell, None]] 0 0 = Some exCell \<and> cell_type exCell \<noteq> Obstacle
   \<and> sqrt ((b_x exNear - (cell_x exCell + offsetAt (rowOffset exState) 0))
             * (b_x exNear - (cell_x exCell + offsetAt (rowOffset exState) 0))
           + (b_y exNear - cell_y exCell) * (b_y exNear - cell_y exCell))
        \<le> bubbleRadius exUtils * 2 - 2
   \<and> activeBubble (updateActiveBubble exUtils 0 0
        (exState\<lparr>grid := [[Some exCell, None]], activeBubble := Some exNear\<rparr>)) = None
   \<and> landings (updateActiveBubble exUtils 0 0
        (exState\<lparr>grid := [[Some exCell, None]], activeBubble := Some exNear\<rparr>)) = 1"
proof -
  let ?s = "exState\<lparr>grid := [[Some exCell, None]], activeBubble := Some exNear\<rparr>"
  have h1: "activeBubble ?s = Some exNear" by simp
  have h3: "\<not> ceilingStop exUtils (wallBounce exUtils (integrate 0 exNear))"
    using exNear_moved exNear_not_ceiling by simp
  have cell: "(0::nat) < length [[Some exCell, None]]" "0 < GRID_COLS exUtils"
    "cellAt [[Some exCell, None]] 0 0 = Some exCell" "cell_type exCell \<noteq> Obstacle"
    by (simp_all add: cellAt_def exCell_def exUtils_fields)
  have d: "sqrt ((b_x exNear - (cell_x exCell + offsetAt (rowOffset exState) 0))
             * (b_x exNear - (cell_x exCell + offsetAt (rowOffset exState) 0))
           + (b_y exNear - cell_y exCell) * (b_y exNear - cell_y exCell))
        \<le> bubbleRadius exUtils * 2 - 2"
    by (simp add: exNear_def exCell_def offsetAt_def exState_fields exUtils_fields)
  have ex: "\<exists>row col c. row < length (grid ?s) \<and> col < GRID_COLS exUtils
              \<and> cellAt (grid ?s) row col = Some c \<and> cell_type c \<noteq> Obstacle
              \<and> sqrt ((b_x (wallBounce exUtils (integrate 0 exNear)) - (cell_x c + offsetAt (rowOffset ?s) row))
                        * (b_x (wallBounce exUtils (integrate 0 exNear)) - (cell_x c + offsetAt (rowOffset ?s) row))
                      + (b_y (wallBounce exUtils (integrate 0 exNear)) - cell_y c)
                        * (b_y (wallBounce exUtils (integrate 0 exNear)) - cell_y c))
                  \<le> bubbleRadius exUtils * 2 - 2"
    using cell d by (intro exI [of _ 0] exI [of _ exCell]) (simp add: exNear_moved)
  have i: "activeBubble (updateActiveBubble exUtils 0 0 ?s) = None
      \<and> landings (updateActiveBubble exUtils 0 0 ?s) = landings ?s + 1"
    using contact_iff_within_distance [OF h1 refl h3 refl, of 0] ex by blast
  show ?thesis
    using h3 cell d i by (simp add: exState_fields)
qed

text \<open>
  C7. The descent drops a new row exactly when the time since the last drop is at least the
  effective interval: the level's descent interval, multiplied by 1.65 while a freeze deadline
  lies in the future. When it fires, the last-drop timestamp becomes the current timestamp and
  the failure line is checked at once on the dropped grid, with the loss of a life if it is
  reached. When it does not fire, the whole state is unchanged.
\<close>

theorem descent_fires_when_interval_elapsed:
  fixes U :: "'r game_utils"
  assumes "lv = level (runtime s)"
    and "dropped = dropNewRow U (grid s) lv (rng s)"
    and "s' = dropCycle U timestamp s"
  shows "dropInterval timestamp s =
            (if frozen timestamp s then descentInterval lv * 1.65 else descentInterval lv)
       \<and> (frozen timestamp s \<longleftrightarrow> (\<exists>t. freezeUntil s = Some t \<and> t \<noteq> 0 \<and> timestamp < t))
       \<and> (frozen timestamp s \<and> 0 < descentInterval lv \<longrightarrow> descentInterval lv < dropInterval timestamp s)
       \<and> (\<not> timestamp - lastDropAt (runtime s) \<ge> dropInterval timestamp s \<longrightarrow> s' = s)
       \<and> (timestamp - lastDropAt (runtime s) \<ge> dropInterval timestamp s \<longrightarrow>
            lastDropAt (runtime s') = timestamp
            \<and> (\<not> gridReachedFailureLine U (fst dropped) \<longrightarrow>
                  s' = s\<lparr>grid := fst dropped, rng := snd dropped,
                          runtime := (runtime s)\<lparr>lastDropAt := timestamp\<rparr>\<rparr>)
            \<and> (gridReachedFailureLine U (fst dropped) \<longrightarrow>
                  s' = loseLife U (s\<lparr>grid := fst dropped, rng := snd dropped,
                                     runtime := (runtime s)\<lparr>lastDropAt := timestamp\<rparr>\<rparr>)
                  \<and> lives (runtime s') = lives (runtime s) - 1
                  \<and> activeBubble s' = None
                  \<and> grid s' = fst (generateInitialGrid U lv (snd dropped))))"
proof -
  have 1: "dropInterval timestamp s =
            (if frozen timestamp s then descentInterval lv * 1.65 else descentInterval lv)"
    by (simp add: dropInterval_def assms(1))
  have 2: "frozen timestamp s \<longleftrightarrow> (\<exists>t. freezeUntil s = Some t \<and> t \<noteq> 0 \<and> timestamp < t)"
    by (auto simp: frozen_def truthy_def split: option.splits)
  have 3: "frozen timestamp s \<and> 0 < descentInterval lv \<longrightarrow> descentInterval lv < dropInterval timestamp s"
    by (simp add: 1)
  have 4: "\<not> timestamp - lastDropAt (runtime s) \<ge> dropInterval timestamp s \<longrightarrow> s' = s"
    by (simp add: assms(3) dropCycle_def Let_def)
  define s1 where "s1 = s\<lparr>grid := fst dropped, rng := snd dropped,
                          runtime := (runtime s)\<lparr>lastDropAt := timestamp\<rparr>\<rparr>"
  have 5: "s' = (if gridReachedFailureLine U (fst dropped) then loseLife U s1 else s1)"
    if "timestamp - lastDropAt (runtime s) \<ge> dropInterval timestamp s"
    using that by (simp add: assms dropCycle_def Let_def s1_def split: prod.splits)
  have 6: "lastDropAt (runtime (loseLife U s1)) = timestamp" "lastDropAt (runtime s1) = timestamp"
    "lives (runtime (loseLife U s1)) = lives (runtime s) - 1"
    "activeBubble (loseLife U s1) = None"
    by (simp_all add: s1_def)
  have 7: "grid (loseLife U s1) = fst (generateInitialGrid U lv (snd dropped))"
    by (simp add: loseLife_def Let_def s1_def assms(1) split: prod.splits)
  show ?thesis
    using 1 2 3 4 5 6 7 unfolding s1_def [symmetric] by auto
qed

theorem descent_fires_when_interval_elapsed_witness:
  "\<not> 100 - lastDropAt (runtime exState) \<ge> dropInterval 100 exState
   \<and> dropCycle exUtils 100 exState = exState
   \<and> 9000 - lastDropAt (runtime exState) \<ge> dropInterval 9000 exState
   \<and> \<not> gridReachedFailureLine exUtils (fst (dropNewRow exUtils (grid exState) exLevel (rng exState)))
   \<and> lastDropAt (runtime (dropCycle exUtils 9000 exState)) = 9000
   \<and> grid (dropCycle exUtils 9000 exState) = [[Some exCell, None], [None, None]]
   \<and> 9000 - lastDropAt (runtime (exState\<lparr>grid := [[None, None], [None, None]]\<rparr>))
        \<ge> dropInterval 9000 (exState\<lparr>grid := [[None, None], [None, None]]\<rparr>)
   \<and> gridReachedFailureLine exUtils
        (fst (dropNewRow exUtils [[None, None], [None, None]] exLevel (rng exState)))
   \<and> lives (runtime (dropCycle exUtils 9000 (exState\<lparr>grid := [[None, None], [None, None]]\<rparr>))) = 2
   \<and> grid (dropCycle exUtils 9000 (exState\<lparr>grid := [[None, None], [None, None]]\<rparr>)) = [[None, None]]
   \<and> frozen 9000 (exState\<lparr>freezeUntil := Some 20000\<rparr>)
   \<and> 0 < descentInterval exLevel
   \<and> dropInterval 9000 (exState\<lparr>freezeUntil := Some 20000\<rparr>) = 14850
   \<and> dropCycle exUtils 9000 (exState\<lparr>freezeUntil := Some 20000\<rparr>) = exState\<lparr>freezeUntil := Some 20000\<rparr>"
proof -
  have a: "dropInterval 100 exState = 9000" "dropInterval 9000 exState = 9000"
    "dropInterval 9000 (exState\<lparr>grid := [[None, None], [None, None]]\<rparr>) = 9000"
    by (simp_all add: dropInterval_def frozen_def truthy_def exState_fields exLevel_def)
  have f: "frozen 9000 (exState\<lparr>freezeUntil := Some 20000\<rparr>)"
    by (simp add: frozen_def truthy_def)
  have d: "descentInterval exLevel = 9000" "level (runtime exState) = exLevel"
    "lastDropAt (runtime exState) = 0" "lives (runtime exState) = 3"
    by (simp_all add: exLevel_def exState_fields)
  have g: "\<not> gridReachedFailureLine exUtils (fst (dropNewRow exUtils (grid exState) exLevel (rng exState)))"
    "gridReachedFailureLine exUtils
        (fst (dropNewRow exUtils [[None, None], [None, None]] exLevel (rng exState)))"
    by (simp_all add: exUtils_fields exState_fields)
  have i1: "dropCycle exUtils 100 exState = exState"
    using descent_fires_when_interval_elapsed [OF refl refl refl, of 100 exState exUtils] a d
    by simp
  have i2: "lastDropAt (runtime (dropCycle exUtils 9000 exState)) = 9000
      \<and> grid (dropCycle exUtils 9000 exState) = [[Some exCell, None], [None, None]]"
    using descent_fires_when_interval_elapsed [OF refl refl refl, of 9000 exState exUtils] a d g
    by (simp add: exUtils_fields exState_fields)
  have i3: "lives (runtime (dropCycle exUtils 9000 (exState\<lparr>grid := [[None, None], [None, None]]\<rparr>))) = 2
      \<and> grid (dropCycle exUtils 9000 (exState\<lparr>grid := [[None, None], [None, None]]\<rparr>)) = [[None, None]]"
    using descent_fires_when_interval_elapsed [OF refl refl refl, of 9000
         "exState\<lparr>grid := [[None, None], [None, None]]\<rparr>" exUtils] a d g
    by (simp add: exUtils_fields loseLife_grid)
  have i4: "dropInterval 9000 (exState\<lparr>freezeUntil := Some 20000\<rparr>) = 14850
      \<and> dropCycle exUtils 9000 (exState\<lparr>freezeUntil := Some 20000\<rparr>) = exState\<lparr>freezeUntil := Some 20000\<rparr>"
    using descent_fires_when_interval_elapsed [OF refl refl refl, of 9000
         "exState\<lparr>freezeUntil := Some 20000\<rparr>" exUtils] f d
    by simp
  show ?thesis
    using i1 i2 i3 i4 a d f g by simp
qed



text \<open>
  C9. In every state of every run the aim angle lies between \<open>-4\<pi>/5\<close> and \<open>-\<pi>/8\<close>, an
  active projectile has a strictly negative vertical direction, and an accepted fire creates a
  projectile whose vertical direction is the sine of the aim angle, which is strictly negative.
\<close>

theorem fired_projectile_moves_upward:
  "aimAngleMin = - 4 * pi / 5 \<and> aimAngleMax = - pi / 8
   \<and> (\<exists>s. run U evs (initialState U now r0) = Inr s
        \<and> aimAngleMin \<le> aimAngle s \<and> aimAngle s \<le> aimAngleMax
        \<and> (\<forall>b. activeBubble s = Some b \<longrightarrow> b_dy b < 0)
        \<and> (\<forall>t. activeBubble s = None \<and> \<not> cleared (runtime s) \<and> 0 < lives (runtime s) \<longrightarrow>
              (\<exists>s' b. performShoot U t s = Inr s' \<and> activeBubble s' = Some b
                  \<and> b_dy b = sin (aimAngle s) \<and> b_dy b < 0)))"
proof -
  from run_wellFormed [OF initialState_wellFormed [of U now r0], of U evs]
  obtain s where s: "run U evs (initialState U now r0) = Inr s" "wellFormed s" by blast
  have fire: "\<exists>s' b. performShoot U t s = Inr s' \<and> activeBubble s' = Some b
                  \<and> b_dy b = sin (aimAngle s) \<and> b_dy b < 0"
    if "activeBubble s = None" "\<not> cleared (runtime s)" "0 < lives (runtime s)" for t
  proof -
    from s(2) have q: "length (nextQueue s) = 2" by (simp add: wellFormed_def)
    from activateNextBubble_two [OF q, of U] obtain s1 where
      s1: "activateNextBubble U s = (Some (hd (nextQueue s)), s1)" "aimAngle s1 = aimAngle s"
      by blast
    from s(2) have "sin (aimAngle s) < 0" by (simp add: wellFormed_def sin_aim_negative)
    with that s1 show ?thesis
      by (simp add: performShoot_def Let_def)
  qed
  from s fire have "run U evs (initialState U now r0) = Inr s
        \<and> aimAngleMin \<le> aimAngle s \<and> aimAngle s \<le> aimAngleMax
        \<and> (\<forall>b. activeBubble s = Some b \<longrightarrow> b_dy b < 0)
        \<and> (\<forall>t. activeBubble s = None \<and> \<not> cleared (runtime s) \<and> 0 < lives (runtime s) \<longrightarrow>
              (\<exists>s' b. performShoot U t s = Inr s' \<and> activeBubble s' = Some b
                  \<and> b_dy b = sin (aimAngle s) \<and> b_dy b < 0))"
    by (auto simp: wellFormed_def)
  then show ?thesis
    by (auto simp: aimAngleMin_def aimAngleMax_def)
qed

theorem fired_projectile_moves_upward_witness:
  "(\<exists>s. run exUtils [PointerMove 3 4, KeyDown ''ArrowLeft'' 2] (initialState exUtils 0 0) = Inr s
        \<and> aimAngleMin \<le> aimAngle s \<and> aimAngle s \<le> aimAngleMax
        \<and> activeBubble s = None \<and> \<not> cleared (runtime s) \<and> 0 < lives (runtime s)
        \<and> (\<exists>s' b. performShoot exUtils 5 s = Inr s' \<and> activeBubble s' = Some b \<and> b_dy b < 0))
   \<and> (\<exists>s b. run exUtils [PointerDown 1] (initialState exUtils 0 0) = Inr s
        \<and> activeBubble s = Some b \<and> b_dy b < 0)"
proof -
  from fired_projectile_moves_upward [of exUtils "[PointerMove 3 4, KeyDown ''ArrowLeft'' 2]" 0 0]
  obtain s where s: "run exUtils [PointerMove 3 4, KeyDown ''ArrowLeft'' 2] (initialState exUtils 0 0) = Inr s"
    "aimAngleMin \<le> aimAngle s" "aimAngle s \<le> aimAngleMax"
    "\<forall>t. activeBubble s = None \<and> \<not> cleared (runtime s) \<and> 0 < lives (runtime s) \<longrightarrow>
              (\<exists>s' b. performShoot exUtils t s = Inr s' \<and> activeBubble s' = Some b
                  \<and> b_dy b = sin (aimAngle s) \<and> b_dy b < 0)"
    by blast
  have "s = arrowKeys ''ArrowLeft'' (handlePointerMove exUtils 3 4 exState)"
    using s(1) by (simp add: handleKeyDown_def exState_def)
  then have idle: "activeBubble s = None" "\<not> cleared (runtime s)" "0 < lives (runtime s)"
    by (simp_all add: exState_fields)
  with s(4) have fire: "\<exists>s' b. performShoot exUtils 5 s = Inr s' \<and> activeBubble s' = Some b \<and> b_dy b < 0"
    by blast
  from fired_projectile_moves_upward [of exUtils "[PointerDown 1]" 0 0]
  obtain u where u: "run exUtils [PointerDown 1] (initialState exUtils 0 0) = Inr u"
    "\<forall>b. activeBubble u = Some b \<longrightarrow> b_dy b < 0"
    by blast
  have "\<exists>b. activeBubble u = Some b"
    using u(1)
    by (auto simp: handlePointerDown_def performShoot_def activateNextBubble_def Let_def
        exState_def [symmetric] exState_fields exUtils_fields)
  with u have "\<exists>b. run exUtils [PointerDown 1] (initialState exUtils 0 0) = Inr u
        \<and> activeBubble u = Some b \<and> b_dy b < 0"
    by blast
  with s(1,2,3) idle fire show ?thesis by blast
qed

text \<open>
  C10. The combo multiplier starts at 1 and lies between 1 and 8 in every state of every run.
  Handling a match result that removed cells sets it to its increment clamped to 1 and 8, one
  that removed none sets it to 1, and so do the loss of a life and a level reset.
\<close>

theorem combo_between_one_and_eight:
  "MAX_COMBO_MULTIPLIER = 8
   \<and> combo (runtime (initialState U now r0)) = 1
   \<and> (\<exists>s. run U evs (initialState U now r0) = Inr s
         \<and> 1 \<le> combo (runtime s) \<and> combo (runtime s) \<le> 8)
   \<and> (0 < n \<longrightarrow> combo (runtime (handleMatchResults n bonus t)) = clamp (combo (runtime t) + 1) 1 8
                \<and> 1 \<le> combo (runtime (handleMatchResults n bonus t))
                \<and> combo (runtime (handleMatchResults n bonus t)) \<le> 8)
   \<and> (0 < n \<and> 1 \<le> combo (runtime t) \<longrightarrow>
         combo (runtime (handleMatchResults n bonus t)) = min (combo (runtime t) + 1) 8)
   \<and> combo (runtime (handleMatchResults 0 bonus t)) = 1
   \<and> combo (runtime (loseLife U t)) = 1
   \<and> combo (runtime (resetLevelState U now lv t)) = 1"
proof -
  from run_wellFormed [OF initialState_wellFormed [of U now r0], of U evs]
  obtain s where s: "run U evs (initialState U now r0) = Inr s" "wellFormed s" by blast
  then have 1: "\<exists>s. run U evs (initialState U now r0) = Inr s
         \<and> 1 \<le> combo (runtime s) \<and> combo (runtime s) \<le> 8"
    by (auto simp: wellFormed_def MAX_COMBO_MULTIPLIER_def)
  have 2: "combo (runtime (initialState U now r0)) = 1"
    by (simp add: initialState_def Let_def split: prod.splits)
  have 3: "0 < n \<longrightarrow> combo (runtime (handleMatchResults n bonus t)) = clamp (combo (runtime t) + 1) 1 8
                \<and> 1 \<le> combo (runtime (handleMatchResults n bonus t))
                \<and> combo (runtime (handleMatchResults n bonus t)) \<le> 8"
    by (simp add: handleMatchResults_def Let_def MAX_COMBO_MULTIPLIER_def clamp_def)
  have 4: "0 < n \<and> 1 \<le> combo (runtime t) \<longrightarrow>
         combo (runtime (handleMatchResults n bonus t)) = min (combo (runtime t) + 1) 8"
    by (simp add: handleMatchResults_def Let_def MAX_COMBO_MULTIPLIER_def clamp_def)
  have 5: "combo (runtime (handleMatchResults 0 bonus t)) = 1"
    by (simp add: handleMatchResults_def Let_def)
  have 6: "combo (runtime (loseLife U t)) = 1" "combo (runtime (resetLevelState U now lv t)) = 1"
    by simp_all
  have 0: "MAX_COMBO_MULTIPLIER = 8"
    by (simp add: MAX_COMBO_MULTIPLIER_def)
  from 0 1 2 3 4 5 6 show ?thesis
    by blast
qed

theorem combo_between_one_and_eight_witness:
  "(\<exists>s. run exUtils [PointerDown 1, Frame 16 16, RestartLevel 20] (initialState exUtils 0 0) = Inr s
         \<and> 1 \<le> combo (runtime s) \<and> combo (runtime s) \<le> 8)
   \<and> (0::nat) < 3 \<and> 1 \<le> combo (runtime exState)
   \<and> combo (runtime (handleMatchResults 3 0 exState)) = 2
   \<and> combo (runtime (handleMatchResults 3 0 (exState\<lparr>runtime := (runtime exState)\<lparr>combo := 8\<rparr>\<rparr>))) = 8
   \<and> combo (runtime (handleMatchResults 0 0 (exState\<lparr>runtime := (runtime exState)\<lparr>combo := 8\<rparr>\<rparr>))) = 1"
proof -
  let ?t = "exState\<lparr>runtime := (runtime exState)\<lparr>combo := 8\<rparr>\<rparr>"
  note run = combo_between_one_and_eight [of exUtils 0 0
      "[PointerDown 1, Frame 16 16, RestartLevel 20]" 3 0 exState, THEN conjunct2, THEN conjunct2]
  note top = combo_between_one_and_eight [of exUtils 0 0 "[]" 3 0 ?t,
      THEN conjunct2, THEN conjunct2, THEN conjunct2]
  have a: "\<exists>s. run exUtils [PointerDown 1, Frame 16 16, RestartLevel 20] (initialState exUtils 0 0) = Inr s
         \<and> 1 \<le> combo (runtime s) \<and> combo (runtime s) \<le> 8"
    using run by blast
  have c: "combo (runtime exState) = 1" "combo (runtime ?t) = 8"
    by (simp_all add: exState_fields)
  have "combo (runtime (handleMatchResults 3 0 exState)) = clamp (combo (runtime exState) + 1) 1 8"
    using run by simp
  then have b: "combo (runtime (handleMatchResults 3 0 exState)) = 2"
    by (simp add: c clamp_def)
  have "combo (runtime (handleMatchResults 3 0 ?t)) = min (combo (runtime ?t) + 1) 8"
    using top c by simp
  then have d: "combo (runtime (handleMatchResults 3 0 ?t)) = 8"
    by (simp add: c)
  have e: "combo (runtime (handleMatchResults 0 0 ?t)) = 1"
    using top by blast
  show ?thesis
    using a b c d e by simp
qed

end
